theory Spec2Isabelle
  imports Complex_Main
begin

section \<open>Data model\<close>

text \<open>
  The program builds pandas data frames with the four columns \<^verbatim>\<open>Year\<close>,
  \<^verbatim>\<open>Total Contributions\<close>, \<^verbatim>\<open>Accrued Interest\<close> and \<^verbatim>\<open>Total Value\<close>.
  A frame is modelled column-wise, as pandas stores it. Every frame of the program carries
  the default index \<open>0, 1, ..., n - 1\<close>, so the index is the position in the column.
  In this first model numbers are exact reals: it serves the claims on the composition of
  series and on the order of the values, where rounding plays no part. The claims on the
  values and the errors of the projection are settled on the second model further down,
  which keeps binary64, int64 and Python's ints. A cell of a numeric column is
  \<open>Some v\<close>, or \<open>None\<close> for pandas' missing value (\<^verbatim>\<open>NaN\<close>, \<^verbatim>\<open>None\<close>).
\<close>

record DataFrame =
  Year :: "int list"
  Total_Contributions :: "real option list"
  Accrued_Interest :: "real option list"
  Total_Value :: "real option list"

text \<open>The exceptions the modelled statements can raise.\<close>

datatype error = ValueError | IndexError | OverflowError

text \<open>A frame whose four columns have \<open>n\<close> cells each.\<close>

definition frame_rows :: "DataFrame \<Rightarrow> nat \<Rightarrow> bool" where
  "frame_rows df n \<longleftrightarrow>
     length (Year df) = n \<and> length (Total_Contributions df) = n \<and>
     length (Accrued_Interest df) = n \<and> length (Total_Value df) = n"

section \<open>The projection: \<^verbatim>\<open>calculate_compounding\<close>\<close>

text \<open>\<^verbatim>\<open>np.cumsum\<close>: the running sums of an array.\<close>

fun cumsum_from :: "real \<Rightarrow> real list \<Rightarrow> real list" where
  "cumsum_from acc [] = []"
| "cumsum_from acc (x # xs) = (acc + x) # cumsum_from (acc + x) xs"

definition cumsum :: "real list \<Rightarrow> real list" where
  "cumsum xs = cumsum_from 0 xs"

text \<open>
  The body of the loop
  \<^verbatim>\<open>future_values[i] = future_values[i - 1] * (1 + interest_rate) + yearly_contributions\<close>.
\<close>

definition loop_body :: "real \<Rightarrow> real \<Rightarrow> nat \<Rightarrow> real list \<Rightarrow> real list" where
  "loop_body interest_rate yearly_contributions i future_values =
     future_values[i := future_values ! (i - 1) * (1 + interest_rate) + yearly_contributions]"

text \<open>
  \<^verbatim>\<open>np.zeros(n_years + 1)\<close> raises \<^verbatim>\<open>ValueError\<close> for a negative size; the
  assignment \<^verbatim>\<open>future_values[0] = initial_investment\<close> raises \<^verbatim>\<open>IndexError\<close> on an
  array of size 0. The loop runs over \<^verbatim>\<open>range(1, n_years + 1)\<close>, and
  \<^verbatim>\<open>future_values[1:]\<close> drops the year-0 value.
\<close>

definition calculate_compounding :: "real \<Rightarrow> real \<Rightarrow> real \<Rightarrow> int \<Rightarrow> error + DataFrame" where
  "calculate_compounding interest_rate initial_investment yearly_contributions n_years =
     (if n_years + 1 < 0 then Inl ValueError
      else if n_years + 1 = 0 then Inl IndexError
      else
        let future_values = replicate (nat (n_years + 1)) 0;
            future_values = future_values[0 := initial_investment];
            future_values = fold (loop_body interest_rate yearly_contributions)
                              [1 ..< nat (n_years + 1)] future_values;
            future_values = drop 1 future_values;
            total_contributions = cumsum (replicate (nat n_years) yearly_contributions);
            accrued_interest = map2 (-) future_values total_contributions
        in Inr \<lparr> Year = map int [1 ..< nat (n_years + 1)],
                 Total_Contributions = map Some total_contributions,
                 Accrued_Interest = map Some accrued_interest,
                 Total_Value = map Some future_values \<rparr>)"

text \<open>
  The recurrence of the specification, written from its words:
  \<open>value[0] = initial\<close>, \<open>value[i] = value[i - 1] * (1 + rate) + contribution\<close>.
\<close>

fun spec_value :: "real \<Rightarrow> real \<Rightarrow> real \<Rightarrow> nat \<Rightarrow> real" where
  "spec_value rate initial contribution 0 = initial"
| "spec_value rate initial contribution (Suc i) =
     spec_value rate initial contribution i * (1 + rate) + contribution"

section \<open>The scenario composition of \<^verbatim>\<open>__main__\<close>\<close>

text \<open>
  Arithmetic on cells: a missing operand gives a missing result, as \<^verbatim>\<open>NaN\<close> does.
\<close>

definition nan_add :: "real option \<Rightarrow> real option \<Rightarrow> real option" where
  "nan_add x y = (case x of None \<Rightarrow> None | Some a \<Rightarrow> (case y of None \<Rightarrow> None | Some b \<Rightarrow> Some (a + b)))"

definition nan_sub :: "real option \<Rightarrow> real option \<Rightarrow> real option" where
  "nan_sub x y = (case x of None \<Rightarrow> None | Some a \<Rightarrow> (case y of None \<Rightarrow> None | Some b \<Rightarrow> Some (a - b)))"

definition nan_mul :: "real option \<Rightarrow> real option \<Rightarrow> real option" where
  "nan_mul x y = (case x of None \<Rightarrow> None | Some a \<Rightarrow> (case y of None \<Rightarrow> None | Some b \<Rightarrow> Some (a * b)))"

text \<open>
  \<^verbatim>\<open>df[col] += other[col]\<close> on columns with the default index: pandas aligns the two
  columns on their index and stores the sum under the index of the left column. A position
  that the right column lacks becomes missing, a surplus position of the right column is
  dropped, and no exception is raised.
\<close>

definition series_iadd :: "real option list \<Rightarrow> real option list \<Rightarrow> real option list" where
  "series_iadd xs ys =
     map (\<lambda>i. if i < length ys then nan_add (xs ! i) (ys ! i) else None) [0 ..< length xs]"

text \<open>\<^verbatim>\<open>series.iloc[-1]\<close> raises \<^verbatim>\<open>IndexError\<close> on an empty column.\<close>

definition iloc_last :: "'a list \<Rightarrow> error + 'a" where
  "iloc_last xs = (if xs = [] then Inl IndexError else Inr (last xs))"

text \<open>\<^verbatim>\<open>pd.concat([df1, df2], ignore_index=True)\<close> for two frames with these four columns.\<close>

definition concat_frames :: "DataFrame \<Rightarrow> DataFrame \<Rightarrow> DataFrame" where
  "concat_frames df1 df2 =
     \<lparr> Year = Year df1 @ Year df2,
       Total_Contributions = Total_Contributions df1 @ Total_Contributions df2,
       Accrued_Interest = Accrued_Interest df1 @ Accrued_Interest df2,
       Total_Value = Total_Value df1 @ Total_Value df2 \<rparr>"

text \<open>
  Data frames are mutable objects that variables refer to. The object store is the list of
  all frames allocated so far; a reference is a position in it. A new object is appended,
  an in-place update replaces the frame at its reference.
\<close>

type_synonym ref = nat
type_synonym heap = "DataFrame list"

definition new_frame :: "DataFrame \<Rightarrow> heap \<Rightarrow> ref \<times> heap" where
  "new_frame df h = (length h, h @ [df])"

text \<open>\<^verbatim>\<open>df.copy()\<close> is a deep copy: a new object with the same cells.\<close>

definition copy :: "ref \<Rightarrow> heap \<Rightarrow> ref \<times> heap" where
  "copy r h = new_frame (h ! r) h"

definition iadd_Total_Value :: "ref \<Rightarrow> ref \<Rightarrow> heap \<Rightarrow> heap" where
  "iadd_Total_Value r r' h =
     h[r := (h ! r)\<lparr>Total_Value := series_iadd (Total_Value (h ! r)) (Total_Value (h ! r'))\<rparr>]"

definition iadd_Total_Contributions :: "ref \<Rightarrow> ref \<Rightarrow> heap \<Rightarrow> heap" where
  "iadd_Total_Contributions r r' h =
     h[r := (h ! r)\<lparr>Total_Contributions :=
              series_iadd (Total_Contributions (h ! r)) (Total_Contributions (h ! r'))\<rparr>]"

definition iadd_Accrued_Interest :: "ref \<Rightarrow> ref \<Rightarrow> heap \<Rightarrow> heap" where
  "iadd_Accrued_Interest r r' h =
     h[r := (h ! r)\<lparr>Accrued_Interest :=
              series_iadd (Accrued_Interest (h ! r)) (Accrued_Interest (h ! r'))\<rparr>]"

text \<open>
  The merge: \<^verbatim>\<open>total_3a_result = data_result_3a.copy()\<close> followed by the three
  \<^verbatim>\<open>+=\<close> on the columns of the copy. It returns the reference bound to
  \<^verbatim>\<open>total_3a_result\<close> and the new store.
\<close>

definition merge_step :: "ref \<Rightarrow> ref \<Rightarrow> heap \<Rightarrow> ref \<times> heap" where
  "merge_step data_result_3a data_result_tax_benefit h =
     (let (total_3a_result, h) = copy data_result_3a h;
          h = iadd_Total_Value total_3a_result data_result_tax_benefit h;
          h = iadd_Total_Contributions total_3a_result data_result_tax_benefit h;
          h = iadd_Accrued_Interest total_3a_result data_result_tax_benefit h
      in (total_3a_result, h))"

text \<open>
  The taxes at the end: \<^verbatim>\<open>gain\<close>, \<^verbatim>\<open>tax\<close>, and the \<^verbatim>\<open>pd.concat\<close> that appends the
  row of year 41 and rebinds \<^verbatim>\<open>total_3a_result\<close> to the new frame.
\<close>

definition tax_step :: "real \<Rightarrow> ref \<Rightarrow> heap \<Rightarrow> error + (ref \<times> heap)" where
  "tax_step tax_rate total_3a_result h =
     (case iloc_last (Total_Value (h ! total_3a_result)) of
        Inl e \<Rightarrow> Inl e
      | Inr last_value \<Rightarrow>
     (case iloc_last (Total_Contributions (h ! total_3a_result)) of
        Inl e \<Rightarrow> Inl e
      | Inr last_contributions \<Rightarrow>
          let gain = nan_sub last_value last_contributions;
              tax = nan_mul gain (Some tax_rate)
          in Inr (new_frame
                    (concat_frames (h ! total_3a_result)
                       \<lparr> Year = [41], Total_Contributions = [None],
                         Accrued_Interest = [None],
                         Total_Value = [nan_sub last_value tax] \<rparr>) h)))"

definition merge_and_tax :: "real \<Rightarrow> ref \<Rightarrow> ref \<Rightarrow> heap \<Rightarrow> error + (ref \<times> heap)" where
  "merge_and_tax tax_rate data_result_3a data_result_tax_benefit h =
     (let (total_3a_result, h) = merge_step data_result_3a data_result_tax_benefit h
      in tax_step tax_rate total_3a_result h)"

text \<open>
  The script. Its inputs are the four numbers of the input widgets, in percent; the charts
  and the page are left out. \<open>main_projections\<close> is the script up to the third projection:
  it returns the references of the three frames and the store.
\<close>

record main_vars =
  data_result :: ref
  data_result_3a :: ref
  data_result_tax_benefit :: ref

definition main_projections ::
  "real \<Rightarrow> real \<Rightarrow> real \<Rightarrow> real \<Rightarrow> error + (main_vars \<times> heap)" where
  "main_projections interest_rate_input fees_stock_input fees_3a_input tax_rate_input =
     (let interest_rate = interest_rate_input / 100;
          fees_stock = fees_stock_input / 100;
          fees_3a = fees_3a_input / 100;
          tax_rate = tax_rate_input / 100;
          rate_stocks = interest_rate - fees_stock;
          rate_3a = interest_rate - fees_3a
      in case calculate_compounding rate_stocks 0 7056 40 of
           Inl e \<Rightarrow> Inl e
         | Inr df \<Rightarrow>
      let (r, h) = new_frame df []
      in case calculate_compounding rate_3a 0 7056 40 of
           Inl e \<Rightarrow> Inl e
         | Inr df_3a \<Rightarrow>
      let (r_3a, h) = new_frame df_3a h
      in case calculate_compounding rate_stocks 0 (7056 * tax_rate) 40 of
           Inl e \<Rightarrow> Inl e
         | Inr df_tax_benefit \<Rightarrow>
      let (r_tax_benefit, h) = new_frame df_tax_benefit h
      in Inr (\<lparr> data_result = r, data_result_3a = r_3a,
                 data_result_tax_benefit = r_tax_benefit \<rparr>, h))"

text \<open>The whole script: the variables, the reference bound to \<^verbatim>\<open>total_3a_result\<close> at
  the end, and the store.\<close>

definition main :: "real \<Rightarrow> real \<Rightarrow> real \<Rightarrow> real \<Rightarrow> error + (main_vars \<times> ref \<times> heap)" where
  "main interest_rate_input fees_stock_input fees_3a_input tax_rate_input =
     (case main_projections interest_rate_input fees_stock_input fees_3a_input tax_rate_input of
        Inl e \<Rightarrow> Inl e
      | Inr (vars, h) \<Rightarrow>
     (case merge_and_tax (tax_rate_input / 100)
             (data_result_3a vars) (data_result_tax_benefit vars) h of
        Inl e \<Rightarrow> Inl e
      | Inr (total_3a_result, h) \<Rightarrow> Inr (vars, total_3a_result, h)))"

section \<open>The projection with the number types of the program\<close>

text \<open>
  The arguments of \<^verbatim>\<open>calculate_compounding\<close> are Python numbers, ints of any size or
  floats; \<^verbatim>\<open>np.zeros\<close> gives a float64 array, \<^verbatim>\<open>np.repeat\<close> an int64, uint64 or object
  array for an int and a float64 array for a float. A binary64 value is a finite real, an
  infinity or \<^verbatim>\<open>NaN\<close>; the two zeros are not distinguished. \<open>round64\<close> rounds a real to the nearest binary64 value, ties to the even
  significand, with the subnormal range below \<open>2 ^ -1022\<close> and overflow to infinity from
  \<open>2 ^ 1024 - 2 ^ 970\<close> on. Memory is unbounded.
\<close>

datatype f64 = Finite real | PInf | NInf | NaN

text \<open>Rounding a real to the nearest integer, a tie to the even one.\<close>

definition rne :: "real \<Rightarrow> int" where
  "rne q = (let f = \<lfloor>q\<rfloor>; d = q - of_int f
            in if d < 1 / 2 then f else if 1 / 2 < d then f + 1
               else if even f then f else f + 1)"

text \<open>The binary exponent of a magnitude, held at -1022 in the subnormal range, and the
  distance of neighbouring binary64 values there.\<close>

definition expo :: "real \<Rightarrow> int" where
  "expo a = (if a < 2 powr (- 1022) then - 1022 else \<lfloor>log 2 a\<rfloor>)"

definition ulp :: "real \<Rightarrow> real" where
  "ulp a = 2 powr (of_int (expo a - 52))"

definition round_mag :: "real \<Rightarrow> real" where
  "round_mag a = of_int (rne (a / ulp a)) * ulp a"

definition round64 :: "real \<Rightarrow> f64" where
  "round64 x =
     (let y = round_mag \<bar>x\<bar>
      in if 2 ^ 1024 \<le> y then (if 0 < x then PInf else NInf)
         else Finite (if 0 \<le> x then y else - y))"

text \<open>The operations of IEEE 754 on binary64, as numpy's float64 and Python's float have
  them.\<close>

fun fneg :: "f64 \<Rightarrow> f64" where
  "fneg (Finite x) = Finite (- x)"
| "fneg PInf = NInf"
| "fneg NInf = PInf"
| "fneg NaN = NaN"

fun fadd :: "f64 \<Rightarrow> f64 \<Rightarrow> f64" where
  "fadd (Finite x) (Finite y) = round64 (x + y)"
| "fadd (Finite x) PInf = PInf"
| "fadd (Finite x) NInf = NInf"
| "fadd PInf (Finite y) = PInf"
| "fadd PInf PInf = PInf"
| "fadd NInf (Finite y) = NInf"
| "fadd NInf NInf = NInf"
| "fadd PInf NInf = NaN"
| "fadd NInf PInf = NaN"
| "fadd NaN b = NaN"
| "fadd a NaN = NaN"

definition fsub :: "f64 \<Rightarrow> f64 \<Rightarrow> f64" where
  "fsub a b = fadd a (fneg b)"

definition inf_times :: "f64 \<Rightarrow> real \<Rightarrow> f64" where
  "inf_times a y = (if y = 0 then NaN else if 0 < y then a else fneg a)"

fun fmul :: "f64 \<Rightarrow> f64 \<Rightarrow> f64" where
  "fmul (Finite x) (Finite y) = round64 (x * y)"
| "fmul (Finite x) PInf = inf_times PInf x"
| "fmul (Finite x) NInf = inf_times NInf x"
| "fmul PInf (Finite y) = inf_times PInf y"
| "fmul NInf (Finite y) = inf_times NInf y"
| "fmul PInf PInf = PInf"
| "fmul NInf NInf = PInf"
| "fmul PInf NInf = NInf"
| "fmul NInf PInf = NInf"
| "fmul NaN b = NaN"
| "fmul a NaN = NaN"


text \<open>A Python number. The conversion of an int to binary64 rounds, and raises
  \<^verbatim>\<open>OverflowError\<close> when the rounded value is not finite. \<open>one_plus\<close> is Python's
  \<^verbatim>\<open>1 + interest_rate\<close>: exact on an int, binary64 on a float.\<close>

datatype pynum = PyInt int | PyFloat f64

definition to_f64 :: "pynum \<Rightarrow> error + f64" where
  "to_f64 v =
     (case v of
        PyFloat x \<Rightarrow> Inr x
      | PyInt k \<Rightarrow>
          (case round64 (of_int k) of
             Finite y \<Rightarrow> Inr (Finite y)
           | _ \<Rightarrow> Inl OverflowError))"

definition one_plus :: "pynum \<Rightarrow> pynum" where
  "one_plus v = (case v of PyInt k \<Rightarrow> PyInt (1 + k) | PyFloat x \<Rightarrow> PyFloat (fadd (Finite 1) x))"

text \<open>The body of the loop: the two operands that are Python numbers are converted to
  binary64, the product and the sum are binary64 operations.\<close>

definition loop_step :: "f64 \<Rightarrow> f64 \<Rightarrow> nat \<Rightarrow> f64 list \<Rightarrow> f64 list" where
  "loop_step growth contribution i future_values =
     future_values[i := fadd (fmul (future_values ! (i - 1)) growth) contribution]"

definition loop_body_np :: "pynum \<Rightarrow> pynum \<Rightarrow> nat \<Rightarrow> f64 list \<Rightarrow> error + f64 list" where
  "loop_body_np interest_rate yearly_contributions i future_values =
     (case to_f64 (one_plus interest_rate) of
        Inl e \<Rightarrow> Inl e
      | Inr growth \<Rightarrow>
     (case to_f64 yearly_contributions of
        Inl e \<Rightarrow> Inl e
      | Inr contribution \<Rightarrow>
          Inr (loop_step growth contribution i future_values)))"

fun loop_np :: "pynum \<Rightarrow> pynum \<Rightarrow> nat list \<Rightarrow> f64 list \<Rightarrow> error + f64 list" where
  "loop_np interest_rate yearly_contributions [] future_values = Inr future_values"
| "loop_np interest_rate yearly_contributions (i # is) future_values =
     (case loop_body_np interest_rate yearly_contributions i future_values of
        Inl e \<Rightarrow> Inl e
      | Inr future_values' \<Rightarrow> loop_np interest_rate yearly_contributions is future_values')"

text \<open>A numpy array with its element type. \<^verbatim>\<open>np.repeat\<close> of a Python int gives int64 when
  the int fits, uint64 from \<open>2 ^ 63\<close> to \<open>2 ^ 64 - 1\<close>, and an object array of Python ints
  otherwise. \<^verbatim>\<open>np.cumsum\<close> adds from left to right in the element type: int64 and uint64
  wrap, Python ints do not, float64 rounds.\<close>

datatype ndarray = Int64 "int list" | UInt64 "int list" | Object "int list" | Float64 "f64 list"

definition wrap_int64 :: "int \<Rightarrow> int" where
  "wrap_int64 k = (k + 2 ^ 63) mod 2 ^ 64 - 2 ^ 63"

definition wrap_uint64 :: "int \<Rightarrow> int" where
  "wrap_uint64 k = k mod 2 ^ 64"

definition np_repeat :: "pynum \<Rightarrow> nat \<Rightarrow> ndarray" where
  "np_repeat v n =
     (case v of
        PyFloat x \<Rightarrow> Float64 (replicate n x)
      | PyInt k \<Rightarrow>
          if - (2 ^ 63) \<le> k \<and> k < 2 ^ 63 then Int64 (replicate n k)
          else if 2 ^ 63 \<le> k \<and> k < 2 ^ 64 then UInt64 (replicate n k)
          else Object (replicate n k))"

fun accumulate_from :: "('a \<Rightarrow> 'a \<Rightarrow> 'a) \<Rightarrow> 'a \<Rightarrow> 'a list \<Rightarrow> 'a list" where
  "accumulate_from f acc [] = []"
| "accumulate_from f acc (x # xs) = f acc x # accumulate_from f (f acc x) xs"

definition accumulate :: "('a \<Rightarrow> 'a \<Rightarrow> 'a) \<Rightarrow> 'a list \<Rightarrow> 'a list" where
  "accumulate f xs = (case xs of [] \<Rightarrow> [] | x # xs' \<Rightarrow> x # accumulate_from f x xs')"

definition np_cumsum :: "ndarray \<Rightarrow> ndarray" where
  "np_cumsum a =
     (case a of
        Int64 xs \<Rightarrow> Int64 (accumulate (\<lambda>a b. wrap_int64 (a + b)) xs)
      | UInt64 xs \<Rightarrow> UInt64 (accumulate (\<lambda>a b. wrap_uint64 (a + b)) xs)
      | Object xs \<Rightarrow> Object (accumulate (+) xs)
      | Float64 xs \<Rightarrow> Float64 (accumulate fadd xs))"

text \<open>\<^verbatim>\<open>future_values - total_contributions\<close>: the float64 array minus the other array,
  element by element. int64 and uint64 elements are converted to binary64; on an object
  array each Python int is converted as above, which can raise. Both arrays have
  \<open>n_years\<close> elements.\<close>

fun subtract_object :: "f64 list \<Rightarrow> int list \<Rightarrow> error + f64 list" where
  "subtract_object [] ks = Inr []"
| "subtract_object (v # vs) [] = Inr []"
| "subtract_object (v # vs) (k # ks) =
     (case to_f64 (PyInt k) of
        Inl e \<Rightarrow> Inl e
      | Inr t \<Rightarrow>
          (case subtract_object vs ks of
             Inl e \<Rightarrow> Inl e
           | Inr rs \<Rightarrow> Inr (fsub v t # rs)))"

definition np_subtract :: "f64 list \<Rightarrow> ndarray \<Rightarrow> error + f64 list" where
  "np_subtract vs a =
     (case a of
        Float64 ts \<Rightarrow> Inr (map2 fsub vs ts)
      | Int64 ks \<Rightarrow> Inr (map2 (\<lambda>v k. fsub v (round64 (of_int k))) vs ks)
      | UInt64 ks \<Rightarrow> Inr (map2 (\<lambda>v k. fsub v (round64 (of_int k))) vs ks)
      | Object ks \<Rightarrow> subtract_object vs ks)"

text \<open>The frame, with the element types of its columns.\<close>

record Frame_np =
  Year_np :: "int list"
  Total_Contributions_np :: ndarray
  Accrued_Interest_np :: "f64 list"
  Total_Value_np :: "f64 list"

text \<open>
  \<^verbatim>\<open>calculate_compounding\<close>, statement by statement: \<^verbatim>\<open>np.zeros\<close> raises
  \<^verbatim>\<open>ValueError\<close> for a negative size; the write of the initial value raises
  \<^verbatim>\<open>IndexError\<close> on an array of size 0, before the value is converted, and
  \<^verbatim>\<open>OverflowError\<close> for an int that binary64 cannot hold; then the loop, the slice, the
  cumulative sum and the subtraction.
\<close>

definition calculate_compounding_np :: "pynum \<Rightarrow> pynum \<Rightarrow> pynum \<Rightarrow> int \<Rightarrow> error + Frame_np" where
  "calculate_compounding_np interest_rate initial_investment yearly_contributions n_years =
     (if n_years + 1 < 0 then Inl ValueError
      else if n_years + 1 = 0 then Inl IndexError
      else
        case to_f64 initial_investment of
          Inl e \<Rightarrow> Inl e
        | Inr initial \<Rightarrow>
        (case loop_np interest_rate yearly_contributions [1 ..< nat (n_years + 1)]
                ((replicate (nat (n_years + 1)) (Finite 0))[0 := initial]) of
           Inl e \<Rightarrow> Inl e
         | Inr future_values \<Rightarrow>
             let future_values = drop 1 future_values;
                 total_contributions = np_cumsum (np_repeat yearly_contributions (nat n_years))
             in case np_subtract future_values total_contributions of
                  Inl e \<Rightarrow> Inl e
                | Inr accrued_interest \<Rightarrow>
                    Inr \<lparr> Year_np = map int [1 ..< nat (n_years + 1)],
                          Total_Contributions_np = total_contributions,
                          Accrued_Interest_np = accrued_interest,
                          Total_Value_np = future_values \<rparr>))"

text \<open>The cells of a column as Python numbers, and the binary64 value of a cell.\<close>

fun cells :: "ndarray \<Rightarrow> pynum list" where
  "cells (Int64 ks) = map PyInt ks"
| "cells (UInt64 ks) = map PyInt ks"
| "cells (Object ks) = map PyInt ks"
| "cells (Float64 xs) = map PyFloat xs"

definition cell_f64 :: "pynum \<Rightarrow> f64" where
  "cell_f64 v = (case v of PyFloat x \<Rightarrow> x | PyInt k \<Rightarrow> round64 (of_int k))"

text \<open>The recurrence of the specification and the cumulative sum of a constant contribution,
  written from its words, in binary64.\<close>

fun spec_value_f64 :: "f64 \<Rightarrow> f64 \<Rightarrow> f64 \<Rightarrow> nat \<Rightarrow> f64" where
  "spec_value_f64 growth initial contribution 0 = initial"
| "spec_value_f64 growth initial contribution (Suc i) =
     fadd (fmul (spec_value_f64 growth initial contribution i) growth) contribution"


text \<open>A float, or an int in the int64 range.\<close>

definition int64_range :: "pynum \<Rightarrow> bool" where
  "int64_range v = (case v of PyFloat x \<Rightarrow> True | PyInt k \<Rightarrow> - (2 ^ 63) \<le> k \<and> k < 2 ^ 63)"



section \<open>Properties of the projection\<close>

lemma length_cumsum_from: "length (cumsum_from acc xs) = length xs"
  by (induction xs arbitrary: acc) simp_all

lemma nth_cumsum_from_replicate:
  "k < n \<Longrightarrow> cumsum_from acc (replicate n c) ! k = acc + c * real (Suc k)"
proof (induction n arbitrary: acc k)
  case 0
  then show ?case by simp
next
  case (Suc n)
  show ?case
  proof (cases k)
    case 0
    then show ?thesis by simp
  next
    case (Suc j)
    with Suc.prems have "j < n" by simp
    from Suc.IH [OF this, of "acc + c"] Suc show ?thesis
      by (simp add: algebra_simps)
  qed
qed

lemma length_loop_body: "length (loop_body r c i fv) = length fv"
  by (simp add: loop_body_def)

lemma length_fold_loop_body: "length (fold (loop_body r c) is fv) = length fv"
  by (induction "is" arbitrary: fv) (simp_all add: length_loop_body)

text \<open>The loop invariant: after the iterations \<open>1, ..., m\<close> the cells \<open>0, ..., m\<close>
  hold the recurrence.\<close>

lemma fold_loop_body_spec:
  assumes "m < length fv" and "fv ! 0 = initial"
  shows "\<forall>k\<le>m. fold (loop_body r c) [1 ..< Suc m] fv ! k = spec_value r initial c k"
  using assms
proof (induction m)
  case 0
  then show ?case by simp
next
  case (Suc m)
  let ?g = "fold (loop_body r c) [1 ..< Suc m] fv"
  from Suc have IH: "\<forall>k\<le>m. ?g ! k = spec_value r initial c k" by simp
  have len: "length ?g = length fv" by (rule length_fold_loop_body)
  have step: "fold (loop_body r c) [1 ..< Suc (Suc m)] fv = loop_body r c (Suc m) ?g"
    by simp
  show ?case
  proof (intro allI impI)
    fix k assume "k \<le> Suc m"
    show "fold (loop_body r c) [1 ..< Suc (Suc m)] fv ! k = spec_value r initial c k"
    proof (cases "k = Suc m")
      case True
      with Suc.prems len IH show ?thesis
        unfolding step by (simp add: loop_body_def)
    next
      case False
      with \<open>k \<le> Suc m\<close> have "k \<le> m" by simp
      with IH False show ?thesis
        unfolding step by (simp add: loop_body_def)
    qed
  qed
qed

lemma future_values_spec:
  assumes "k < n"
  shows "drop 1 (fold (loop_body r c) [1 ..< Suc n] ((replicate (Suc n) 0)[0 := initial])) ! k
           = spec_value r initial c (Suc k)"
proof -
  let ?fv = "(replicate (Suc n) (0::real))[0 := initial]"
  have "\<forall>j\<le>n. fold (loop_body r c) [1 ..< Suc n] ?fv ! j = spec_value r initial c j"
    by (rule fold_loop_body_spec) simp_all
  moreover have "length (fold (loop_body r c) [1 ..< Suc n] ?fv) = Suc n"
    by (simp add: length_fold_loop_body)
  ultimately show ?thesis using assms by simp
qed

text \<open>The result of a call with a positive horizon, column by column.\<close>

lemma calculate_compounding_pos:
  assumes "0 < n_years"
  shows "\<exists>df. calculate_compounding r initial c n_years = Inr df \<and>
           frame_rows df (nat n_years) \<and>
           (\<forall>k<nat n_years.
              Year df ! k = int k + 1 \<and>
              Total_Value df ! k = Some (spec_value r initial c (Suc k)) \<and>
              Total_Contributions df ! k = Some (c * real (Suc k)) \<and>
              Accrued_Interest df ! k = Some (spec_value r initial c (Suc k) - c * real (Suc k)))"
proof -
  define n where "n = nat n_years"
  with assms have n: "nat (n_years + 1) = Suc n" "0 < n" by simp_all
  let ?fv = "drop 1 (fold (loop_body r c) [1 ..< Suc n] ((replicate (Suc n) 0)[0 := initial]))"
  let ?tc = "cumsum (replicate n c)"
  have lfv: "length ?fv = n" by (simp add: length_fold_loop_body)
  have ltc: "length ?tc = n" by (simp add: cumsum_def length_cumsum_from)
  have fv: "\<And>k. k < n \<Longrightarrow> ?fv ! k = spec_value r initial c (Suc k)"
    by (rule future_values_spec)
  have tc: "\<And>k. k < n \<Longrightarrow> ?tc ! k = c * real (Suc k)"
    by (simp add: cumsum_def nth_cumsum_from_replicate)
  have eq: "calculate_compounding r initial c n_years =
      Inr \<lparr> Year = map int [1 ..< Suc n], Total_Contributions = map Some ?tc,
            Accrued_Interest = map Some (map2 (-) ?fv ?tc), Total_Value = map Some ?fv \<rparr>"
    using assms n unfolding calculate_compounding_def Let_def n_def [symmetric] by simp
  show ?thesis
    unfolding eq n_def [symmetric]
    using lfv ltc fv tc by (simp add: frame_rows_def nth_upt del: upt_Suc)
qed

lemma calculate_compounding_zero:
  "calculate_compounding r initial c 0 =
     Inr \<lparr> Year = [], Total_Contributions = [], Accrued_Interest = [], Total_Value = [] \<rparr>"
  by (simp add: calculate_compounding_def cumsum_def)

lemma calculate_compounding_minus_one:
  "calculate_compounding r initial c (- 1) = Inl IndexError"
  by (simp add: calculate_compounding_def)

lemma calculate_compounding_negative:
  "n_years < - 1 \<Longrightarrow> calculate_compounding r initial c n_years = Inl ValueError"
  by (simp add: calculate_compounding_def)

lemma calculate_compounding_Inr:
  assumes "calculate_compounding r initial c n_years = Inr df"
  shows "0 \<le> n_years \<and> frame_rows df (nat n_years) \<and>
         (\<forall>k<nat n_years.
            Year df ! k = int k + 1 \<and>
            Total_Value df ! k = Some (spec_value r initial c (Suc k)) \<and>
            Total_Contributions df ! k = Some (c * real (Suc k)) \<and>
            Accrued_Interest df ! k = Some (spec_value r initial c (Suc k) - c * real (Suc k)))"
proof -
  consider "n_years < - 1" | "n_years = - 1" | "n_years = 0" | "0 < n_years" by linarith
  then show ?thesis
  proof cases
    case 1
    with assms show ?thesis by (simp add: calculate_compounding_negative)
  next
    case 2
    with assms show ?thesis by (simp add: calculate_compounding_minus_one)
  next
    case 3
    with assms show ?thesis by (auto simp add: calculate_compounding_zero frame_rows_def)
  next
    case 4
    from calculate_compounding_pos [OF 4, of r initial c] assms 4 show ?thesis by auto
  qed
qed




lemma merge_step_eq:
  assumes "a < length h" "b < length h"
  shows "merge_step a b h =
     (length h,
      h @ [(h ! a)\<lparr> Total_Value := series_iadd (Total_Value (h ! a)) (Total_Value (h ! b)),
                   Total_Contributions :=
                     series_iadd (Total_Contributions (h ! a)) (Total_Contributions (h ! b)),
                   Accrued_Interest :=
                     series_iadd (Accrued_Interest (h ! a)) (Accrued_Interest (h ! b)) \<rparr>])"
  using assms
  by (simp add: merge_step_def copy_def new_frame_def iadd_Total_Value_def
      iadd_Total_Contributions_def iadd_Accrued_Interest_def nth_append)

lemma tax_step_eq:
  assumes "Total_Value (h ! m) \<noteq> []" "Total_Contributions (h ! m) \<noteq> []"
  shows "tax_step tax_rate m h =
     Inr (length h,
          h @ [concat_frames (h ! m)
                 \<lparr> Year = [41], Total_Contributions = [None], Accrued_Interest = [None],
                   Total_Value =
                     [nan_sub (last (Total_Value (h ! m)))
                        (nan_mul (nan_sub (last (Total_Value (h ! m)))
                                          (last (Total_Contributions (h ! m))))
                                 (Some tax_rate))] \<rparr>])"
  using assms by (simp add: tax_step_def iloc_last_def new_frame_def)

lemma tax_step_empty:
  assumes "Total_Value (h ! m) = [] \<or> Total_Contributions (h ! m) = []"
  shows "tax_step tax_rate m h = Inl IndexError"
  using assms by (auto simp add: tax_step_def iloc_last_def)

lemma length_series_iadd: "length (series_iadd xs ys) = length xs"
  by (simp add: series_iadd_def)

lemma nth_series_iadd:
  "k < length xs \<Longrightarrow>
   series_iadd xs ys ! k = (if k < length ys then nan_add (xs ! k) (ys ! k) else None)"
  by (simp add: series_iadd_def)

section \<open>Properties of the composition\<close>

lemma merge_step_frame:
  assumes "a < length h" "b < length h"
  shows "\<exists>M. merge_step a b h = (length h, h @ [M]) \<and>
           Year M = Year (h ! a) \<and>
           Total_Value M = series_iadd (Total_Value (h ! a)) (Total_Value (h ! b)) \<and>
           Total_Contributions M =
             series_iadd (Total_Contributions (h ! a)) (Total_Contributions (h ! b)) \<and>
           Accrued_Interest M =
             series_iadd (Accrued_Interest (h ! a)) (Accrued_Interest (h ! b))"
  by (simp add: merge_step_eq [OF assms])

lemma tax_step_cases:
  "tax_step tax_rate m h = Inl IndexError \<or>
   (\<exists>T. tax_step tax_rate m h = Inr (length h, h @ [T]))"
proof (cases "Total_Value (h ! m) = [] \<or> Total_Contributions (h ! m) = []")
  case True
  then show ?thesis by (simp add: tax_step_empty)
next
  case False
  then show ?thesis by (simp add: tax_step_eq)
qed

lemma main_projections_eq:
  "\<exists>df df_3a df_tb.
     calculate_compounding (i / 100 - fs / 100) 0 7056 40 = Inr df \<and>
     calculate_compounding (i / 100 - f3 / 100) 0 7056 40 = Inr df_3a \<and>
     calculate_compounding (i / 100 - fs / 100) 0 (7056 * (t / 100)) 40 = Inr df_tb \<and>
     main_projections i fs f3 t =
       Inr (\<lparr> data_result = 0, data_result_3a = 1, data_result_tax_benefit = 2 \<rparr>,
            [df, df_3a, df_tb])"
proof -
  have pos: "(0::int) < 40" by simp
  from calculate_compounding_pos [OF pos, of "i / 100 - fs / 100" 0 7056]
  obtain df where df: "calculate_compounding (i / 100 - fs / 100) 0 7056 40 = Inr df"
    by blast
  from calculate_compounding_pos [OF pos, of "i / 100 - f3 / 100" 0 7056]
  obtain df_3a where df_3a: "calculate_compounding (i / 100 - f3 / 100) 0 7056 40 = Inr df_3a"
    by blast
  from calculate_compounding_pos [OF pos, of "i / 100 - fs / 100" 0 "7056 * (t / 100)"]
  obtain df_tb
    where df_tb: "calculate_compounding (i / 100 - fs / 100) 0 (7056 * (t / 100)) 40 = Inr df_tb"
    by blast
  have "main_projections i fs f3 t =
       Inr (\<lparr> data_result = 0, data_result_3a = 1, data_result_tax_benefit = 2 \<rparr>,
            [df, df_3a, df_tb])"
    unfolding main_projections_def Let_def df df_3a df_tb
    by (simp add: new_frame_def)
  with df df_3a df_tb show ?thesis by blast
qed

text \<open>The tax step on any frame with at least one row.\<close>

lemma tax_step_terminal_row:
  assumes "frame_rows (h ! m) N" "0 < N"
  shows "\<exists>T. tax_step tax_rate m h = Inr (length h, h @ [T]) \<and>
           frame_rows T (N + 1) \<and>
           (\<forall>k<N. Year T ! k = Year (h ! m) ! k \<and>
                   Total_Value T ! k = Total_Value (h ! m) ! k \<and>
                   Total_Contributions T ! k = Total_Contributions (h ! m) ! k \<and>
                   Accrued_Interest T ! k = Accrued_Interest (h ! m) ! k) \<and>
           Year T ! N = 41 \<and>
           Total_Contributions T ! N = None \<and>
           Accrued_Interest T ! N = None \<and>
           Total_Value T ! N =
             nan_sub (Total_Value (h ! m) ! (N - 1))
               (nan_mul (nan_sub (Total_Value (h ! m) ! (N - 1))
                                 (Total_Contributions (h ! m) ! (N - 1)))
                        (Some tax_rate))"
proof -
  from assms have ne: "Total_Value (h ! m) \<noteq> []" "Total_Contributions (h ! m) \<noteq> []"
    by (auto simp add: frame_rows_def)
  from assms ne have lasts: "last (Total_Value (h ! m)) = Total_Value (h ! m) ! (N - 1)"
    "last (Total_Contributions (h ! m)) = Total_Contributions (h ! m) ! (N - 1)"
    by (simp_all add: frame_rows_def last_conv_nth)
  from assms show ?thesis
    unfolding tax_step_eq [OF ne] lasts
    by (simp add: concat_frames_def frame_rows_def nth_append)
qed

lemma calculate_compounding_balanced:
  assumes "calculate_compounding r initial c n_years = Inr df"
  shows "frame_rows df (nat n_years)"
    and "\<forall>k<nat n_years. \<exists>v t. Total_Value df ! k = Some v \<and>
        Total_Contributions df ! k = Some t \<and> Accrued_Interest df ! k = Some (v - t)"
  using calculate_compounding_Inr [OF assms] by blast+

text \<open>The run of the script: the three projections, the merged frame and the final frame.\<close>

lemma main_composite:
  "\<exists>df df_3a df_tb F T.
     main_projections i fs f3 t =
       Inr (\<lparr> data_result = 0, data_result_3a = 1, data_result_tax_benefit = 2 \<rparr>,
            [df, df_3a, df_tb]) \<and>
     merge_step 1 2 [df, df_3a, df_tb] = (3, [df, df_3a, df_tb, F]) \<and>
     main i fs f3 t =
       Inr (\<lparr> data_result = 0, data_result_3a = 1, data_result_tax_benefit = 2 \<rparr>,
            4, [df, df_3a, df_tb, F, T]) \<and>
     frame_rows F 40 \<and> frame_rows T 41 \<and>
     (\<forall>k<40. \<exists>v c a. Total_Value F ! k = Some v \<and> Total_Contributions F ! k = Some c \<and>
                      Accrued_Interest F ! k = Some a \<and> v = c + a) \<and>
     (\<forall>k<40. Year T ! k = Year F ! k \<and>
              Total_Value T ! k = Total_Value F ! k \<and>
              Total_Contributions T ! k = Total_Contributions F ! k \<and>
              Accrued_Interest T ! k = Accrued_Interest F ! k) \<and>
     Year T ! 40 = 41 \<and>
     Total_Contributions T ! 40 = None \<and>
     Accrued_Interest T ! 40 = None \<and>
     Total_Value T ! 40 =
       nan_sub (Total_Value F ! 39)
         (nan_mul (nan_sub (Total_Value F ! 39) (Total_Contributions F ! 39)) (Some (t / 100)))"
proof -
  let ?V = "\<lparr> data_result = 0, data_result_3a = 1, data_result_tax_benefit = 2 \<rparr>"
  from main_projections_eq [of i fs f3 t]
  obtain df df_3a df_tb
    where df_3a: "calculate_compounding (i / 100 - f3 / 100) 0 7056 40 = Inr df_3a"
      and df_tb: "calculate_compounding (i / 100 - fs / 100) 0 (7056 * (t / 100)) 40 = Inr df_tb"
      and proj: "main_projections i fs f3 t = Inr (?V, [df, df_3a, df_tb])"
    by blast
  let ?h = "[df, df_3a, df_tb]"
  have forty: "nat 40 = 40" by simp
  from calculate_compounding_balanced [OF df_3a]
  have rows_3a: "frame_rows df_3a 40"
    and cells_3a: "\<forall>k<40. \<exists>v c. Total_Value df_3a ! k = Some v \<and>
        Total_Contributions df_3a ! k = Some c \<and> Accrued_Interest df_3a ! k = Some (v - c)"
    unfolding forty by blast+
  from calculate_compounding_balanced [OF df_tb]
  have rows_tb: "frame_rows df_tb 40"
    and cells_tb: "\<forall>k<40. \<exists>v c. Total_Value df_tb ! k = Some v \<and>
        Total_Contributions df_tb ! k = Some c \<and> Accrued_Interest df_tb ! k = Some (v - c)"
    unfolding forty by blast+
  have "(1::nat) < length ?h" "(2::nat) < length ?h" by simp_all
  from merge_step_frame [OF this]
  obtain F where step: "merge_step 1 2 ?h = (3, ?h @ [F])"
    and F: "Total_Value F = series_iadd (Total_Value df_3a) (Total_Value df_tb)"
      "Total_Contributions F =
         series_iadd (Total_Contributions df_3a) (Total_Contributions df_tb)"
      "Accrued_Interest F = series_iadd (Accrued_Interest df_3a) (Accrued_Interest df_tb)"
      "Year F = Year df_3a"
    by auto
  from F rows_3a have rows_F: "frame_rows F 40"
    by (simp add: frame_rows_def length_series_iadd)
  have cells_F: "\<exists>v c a. Total_Value F ! k = Some v \<and> Total_Contributions F ! k = Some c \<and>
                      Accrued_Interest F ! k = Some a \<and> v = c + a" if "k < 40" for k
  proof -
    from cells_3a that obtain v c where a: "Total_Value df_3a ! k = Some v"
      "Total_Contributions df_3a ! k = Some c" "Accrued_Interest df_3a ! k = Some (v - c)"
      by blast
    from cells_tb that obtain v' c' where b: "Total_Value df_tb ! k = Some v'"
      "Total_Contributions df_tb ! k = Some c'" "Accrued_Interest df_tb ! k = Some (v' - c')"
      by blast
    from that rows_3a rows_tb a b F show ?thesis
      by (simp add: frame_rows_def nth_series_iadd nan_add_def)
  qed
  have at: "(?h @ [F]) ! 3 = F" by simp
  from rows_F have "frame_rows ((?h @ [F]) ! 3) 40" by simp
  from tax_step_terminal_row [OF this, of "t / 100"]
  obtain T where tax: "tax_step (t / 100) 3 (?h @ [F]) = Inr (4, ?h @ [F] @ [T])"
    and T: "frame_rows T 41"
      "\<forall>k<40. Year T ! k = Year F ! k \<and>
              Total_Value T ! k = Total_Value F ! k \<and>
              Total_Contributions T ! k = Total_Contributions F ! k \<and>
              Accrued_Interest T ! k = Accrued_Interest F ! k"
      "Year T ! 40 = 41" "Total_Contributions T ! 40 = None" "Accrued_Interest T ! 40 = None"
      "Total_Value T ! 40 =
       nan_sub (Total_Value F ! 39)
         (nan_mul (nan_sub (Total_Value F ! 39) (Total_Contributions F ! 39)) (Some (t / 100)))"
    unfolding at by auto
  from proj step tax have main: "main i fs f3 t = Inr (?V, 4, [df, df_3a, df_tb, F, T])"
    by (simp add: main_def merge_and_tax_def)
  from proj step main rows_F T cells_F show ?thesis
    by (intro exI [of _ df] exI [of _ df_3a] exI [of _ df_tb] exI [of _ F] exI [of _ T]) simp
qed

section \<open>Properties of binary64 rounding\<close>

lemma rne_of_int: "rne (of_int n) = n"
  by (simp add: rne_def)

lemma rne_ge_floor: "\<lfloor>q\<rfloor> \<le> rne q"
  by (simp add: rne_def Let_def)

lemma rne_le_floor_Suc: "rne q \<le> \<lfloor>q\<rfloor> + 1"
  by (simp add: rne_def Let_def)

lemma rne_le_int: "q \<le> of_int n \<Longrightarrow> rne q \<le> n"
proof -
  assume a: "q \<le> of_int n"
  show ?thesis
  proof (cases "q = of_int n")
    case True
    then show ?thesis by (simp add: rne_of_int)
  next
    case False
    with a have "q < of_int n" by simp
    then have "\<lfloor>q\<rfloor> < n" by (simp add: floor_less_iff)
    with rne_le_floor_Suc [of q] show ?thesis by linarith
  qed
qed

lemma rne_ge_int: "of_int n \<le> q \<Longrightarrow> n \<le> rne q"
proof -
  assume "of_int n \<le> q"
  then have "n \<le> \<lfloor>q\<rfloor>" by (simp add: le_floor_iff)
  with rne_ge_floor [of q] show ?thesis by linarith
qed

lemma rne_mono: "q \<le> q' \<Longrightarrow> rne q \<le> rne q'"
proof -
  assume le: "q \<le> q'"
  then have fl: "\<lfloor>q\<rfloor> \<le> \<lfloor>q'\<rfloor>" by (rule floor_mono)
  show ?thesis
  proof (cases "\<lfloor>q\<rfloor> = \<lfloor>q'\<rfloor>")
    case True
    with le show ?thesis by (auto simp add: rne_def Let_def)
  next
    case False
    with fl have "\<lfloor>q\<rfloor> + 1 \<le> \<lfloor>q'\<rfloor>" by simp
    with rne_le_floor_Suc [of q] rne_ge_floor [of q'] show ?thesis by linarith
  qed
qed

lemma expo_ge: "- 1022 \<le> expo a"
proof (cases "a < 2 powr (- 1022)")
  case True
  then show ?thesis by (simp add: expo_def)
next
  case False
  then have a: "2 powr (- 1022) \<le> a" by simp
  have "0 < 2 powr (- 1022 :: real)" by simp
  with a have pos: "0 < a" by linarith
  from a pos have "- 1022 \<le> log 2 a" by (simp add: le_log_iff)
  then have "- 1022 \<le> \<lfloor>log 2 a\<rfloor>" by (simp add: le_floor_iff)
  with False show ?thesis by (simp add: expo_def)
qed

lemma expo_upper: "0 \<le> a \<Longrightarrow> a < 2 powr (of_int (expo a + 1))"
proof (cases "a < 2 powr (- 1022)")
  case True
  have "(2::real) powr (- 1022) \<le> 2 powr (- 1021)" by simp
  with True have "a < 2 powr (- 1021)" by linarith
  with True show ?thesis by (simp add: expo_def)
next
  case False
  then have a: "2 powr (- 1022) \<le> a" by simp
  have "0 < 2 powr (- 1022 :: real)" by simp
  with a have pos: "0 < a" by linarith
  have "\<lfloor>log 2 a\<rfloor> = \<lfloor>log 2 a\<rfloor>" ..
  with pos have "a < 2 powr (of_int (\<lfloor>log 2 a\<rfloor> + 1))"
    using floor_log_eq_powr_iff [of a 2 "\<lfloor>log 2 a\<rfloor>"] by simp
  with False show ?thesis by (simp add: expo_def)
qed

lemma expo_lower: "2 powr (- 1022) \<le> a \<Longrightarrow> 2 powr (of_int (expo a)) \<le> a"
proof -
  assume a: "2 powr (- 1022) \<le> a"
  have "0 < 2 powr (- 1022 :: real)" by simp
  with a have pos: "0 < a" by linarith
  have "\<lfloor>log 2 a\<rfloor> = \<lfloor>log 2 a\<rfloor>" ..
  with pos have "2 powr (of_int \<lfloor>log 2 a\<rfloor>) \<le> a"
    using floor_log_eq_powr_iff [of a 2 "\<lfloor>log 2 a\<rfloor>"] by simp
  with a show ?thesis by (simp add: expo_def)
qed

lemma expo_eqI:
  assumes "2 powr (of_int e) \<le> a" "a < 2 powr (of_int (e + 1))" "- 1022 \<le> e"
  shows "expo a = e"
proof -
  have "0 < 2 powr (real_of_int e)" by simp
  with assms(1) have pos: "0 < a" by linarith
  from assms(3) have "(2::real) powr (- 1022) \<le> 2 powr (of_int e)" by simp
  with assms(1) have "\<not> a < 2 powr (- 1022)" by linarith
  moreover from pos assms have "\<lfloor>log 2 a\<rfloor> = e"
    using floor_log_eq_powr_iff [of a 2 e] by simp
  ultimately show ?thesis by (simp add: expo_def)
qed

lemma expo_mono: "0 \<le> a \<Longrightarrow> a \<le> b \<Longrightarrow> expo a \<le> expo b"
proof -
  assume a: "0 \<le> a" and le: "a \<le> b"
  show ?thesis
  proof (cases "a < 2 powr (- 1022)")
    case True
    then have "expo a = - 1022" by (simp add: expo_def)
    with expo_ge [of b] show ?thesis by simp
  next
    case False
    then have a': "2 powr (- 1022) \<le> a" by simp
    have "0 < 2 powr (- 1022 :: real)" by simp
    with a' have pos: "0 < a" by linarith
    with le have posb: "0 < b" by linarith
    from a' le have b': "\<not> b < 2 powr (- 1022)" by linarith
    from pos posb le have "log 2 a \<le> log 2 b" by simp
    then have "\<lfloor>log 2 a\<rfloor> \<le> \<lfloor>log 2 b\<rfloor>" by (rule floor_mono)
    with False b' show ?thesis by (simp add: expo_def)
  qed
qed

lemma ulp_pos: "0 < ulp a"
  by (simp add: ulp_def)


lemma round_mag_le_top:
  assumes "0 \<le> a"
  shows "round_mag a \<le> 2 powr (of_int (expo a + 1))"
proof -
  have u: "ulp a * 2 ^ 53 = 2 powr (of_int (expo a + 1))"
  proof -
    have "(2::real) powr (of_int (expo a + 1)) = 2 powr (of_int (expo a - 52) + 53)"
      by (simp add: add.commute)
    also have "\<dots> = 2 powr (of_int (expo a - 52)) * 2 powr 53"
      by (rule powr_add)
    finally show ?thesis by (simp add: ulp_def)
  qed
  from expo_upper [OF assms] u have "a < ulp a * 2 ^ 53" by simp
  with ulp_pos [of a] have "a / ulp a \<le> of_int (2 ^ 53)"
    by (simp add: field_simps)
  then have "rne (a / ulp a) \<le> 2 ^ 53" by (rule rne_le_int)
  then have "real_of_int (rne (a / ulp a)) \<le> 2 ^ 53"
    by (metis of_int_le_iff of_int_numeral of_int_power)
  with ulp_pos [of a] have "of_int (rne (a / ulp a)) * ulp a \<le> 2 ^ 53 * ulp a"
    by (simp add: mult_right_mono)
  with u show ?thesis by (simp add: round_mag_def mult.commute)
qed

lemma round_mag_ge_bottom:
  assumes "2 powr (- 1022) \<le> a"
  shows "2 powr (of_int (expo a)) \<le> round_mag a"
proof -
  have u: "ulp a * 2 ^ 52 = 2 powr (of_int (expo a))"
  proof -
    have "(2::real) powr (of_int (expo a)) = 2 powr (of_int (expo a - 52) + 52)"
      by (simp add: add.commute)
    also have "\<dots> = 2 powr (of_int (expo a - 52)) * 2 powr 52"
      by (rule powr_add)
    finally show ?thesis by (simp add: ulp_def)
  qed
  from expo_lower [OF assms] u have "ulp a * 2 ^ 52 \<le> a" by simp
  with ulp_pos [of a] have "of_int (2 ^ 52) \<le> a / ulp a"
    by (simp add: field_simps)
  then have "2 ^ 52 \<le> rne (a / ulp a)" by (rule rne_ge_int)
  then have "2 ^ 52 \<le> real_of_int (rne (a / ulp a))"
    by (metis of_int_le_iff of_int_numeral of_int_power)
  with ulp_pos [of a] have "2 ^ 52 * ulp a \<le> of_int (rne (a / ulp a)) * ulp a"
    by (simp add: mult_right_mono)
  with u show ?thesis by (simp add: round_mag_def mult.commute)
qed

lemma round_mag_mono:
  assumes "0 \<le> a" "a \<le> b"
  shows "round_mag a \<le> round_mag b"
proof (cases "expo a = expo b")
  case True
  then have u: "ulp a = ulp b" by (simp add: ulp_def)
  from assms ulp_pos [of b] have "a / ulp b \<le> b / ulp b"
    by (simp add: divide_right_mono)
  then have "rne (a / ulp b) \<le> rne (b / ulp b)" by (rule rne_mono)
  then have "real_of_int (rne (a / ulp b)) \<le> real_of_int (rne (b / ulp b))" by simp
  with ulp_pos [of b] show ?thesis
    unfolding round_mag_def u by (simp add: mult_right_mono)
next
  case False
  with expo_mono [OF assms] have lt: "expo a + 1 \<le> expo b" by simp
  with expo_ge [of a] have "- 1022 < expo b" by simp
  then have "\<not> b < 2 powr (- 1022)" by (auto simp add: expo_def)
  then have "2 powr (- 1022) \<le> b" by simp
  from round_mag_ge_bottom [OF this] have "2 powr (of_int (expo b)) \<le> round_mag b" .
  moreover from lt have "(2::real) powr (of_int (expo a + 1)) \<le> 2 powr (of_int (expo b))"
    by simp
  moreover note round_mag_le_top [OF assms(1)]
  ultimately show ?thesis by linarith
qed

text \<open>A magnitude \<open>m * 2 ^ e\<close> with \<open>m < 2 ^ 53\<close> and \<open>e \<ge> -1074\<close> is left unchanged.\<close>

lemma round_mag_exact:
  assumes "0 \<le> m" "m < 2 ^ 53" "- 1074 \<le> e"
  shows "round_mag (of_int m * 2 powr (of_int e)) = of_int m * 2 powr (of_int e)"
proof (cases "m = 0")
  case True
  then show ?thesis by (simp add: round_mag_def rne_def)
next
  case False
  with assms(1) have mpos: "0 < m" by simp
  let ?a = "real_of_int m * 2 powr (of_int e)"
  have apos: "0 < ?a" using mpos by simp
  have le: "expo ?a - 52 \<le> e"
  proof (cases "?a < 2 powr (- 1022)")
    case True
    then have "expo ?a = - 1022" by (simp add: expo_def)
    with assms(3) show ?thesis by simp
  next
    case False
    then have "2 powr (- 1022) \<le> ?a" by simp
    from expo_lower [OF this] have "2 powr (of_int (expo ?a)) \<le> ?a" .
    moreover from assms(2) have "real_of_int m < 2 ^ 53"
      by (metis of_int_less_iff of_int_numeral of_int_power)
    then have "?a < 2 ^ 53 * 2 powr (of_int e)" by simp
    moreover have "(2::real) ^ 53 * 2 powr (of_int e) = 2 powr (of_int (e + 53))"
    proof -
      have "(2::real) powr (of_int (e + 53)) = 2 powr (of_int e + 53)" by simp
      also have "\<dots> = 2 powr (of_int e) * 2 powr 53" by (rule powr_add)
      finally show ?thesis by simp
    qed
    ultimately have "(2::real) powr (of_int (expo ?a)) < 2 powr (of_int (e + 53))"
      by linarith
    then have "expo ?a < e + 53" by simp
    then show ?thesis by simp
  qed
  define a where "a = real_of_int m * 2 powr (of_int e)"
  define u where "u = ulp a"
  define k where "k = nat (e - (expo a - 52))"
  from le have k: "e = (expo a - 52) + int k" by (simp add: k_def a_def)
  have upos: "0 < u" by (simp add: u_def ulp_pos)
  have "(2::real) powr (of_int e) = 2 powr (of_int (expo a - 52) + real k)"
    by (subst k) simp
  also have "\<dots> = 2 powr (of_int (expo a - 52)) * 2 powr (real k)"
    by (rule powr_add)
  also have "\<dots> = u * 2 ^ k"
    by (simp add: u_def ulp_def powr_realpow)
  finally have pe: "(2::real) powr (of_int e) = u * 2 ^ k" .
  have a: "a = of_int (m * 2 ^ k) * u"
    by (simp add: a_def pe)
  with upos have q: "a / u = of_int (m * 2 ^ k)" by simp
  have "round_mag a = of_int (rne (a / u)) * u"
    by (simp add: round_mag_def u_def)
  also have "\<dots> = of_int (m * 2 ^ k) * u"
    unfolding q rne_of_int ..
  also have "\<dots> = a" by (simp only: a)
  finally show ?thesis by (simp only: a_def)
qed


lemma round64_nonneg:
  "0 \<le> x \<Longrightarrow>
   round64 x = (if 2 ^ 1024 \<le> round_mag x then PInf else Finite (round_mag x))"
  by (auto simp add: round64_def Let_def round_mag_def rne_def)

lemma round64_neg:
  "x < 0 \<Longrightarrow>
   round64 x = (if 2 ^ 1024 \<le> round_mag (- x) then NInf else Finite (- round_mag (- x)))"
  by (simp add: round64_def Let_def)


lemma round64_exact_nonneg:
  assumes "0 \<le> m" "m < 2 ^ 53" "- 1074 \<le> e"
    and "of_int m * 2 powr (of_int e) < (2::real) ^ 1024"
  shows "round64 (of_int m * 2 powr (of_int e)) = Finite (of_int m * 2 powr (of_int e))"
proof -
  from assms(1) have "0 \<le> real_of_int m * 2 powr (of_int e)" by simp
  from round64_nonneg [OF this] round_mag_exact [OF assms(1-3)] assms(4)
  show ?thesis by simp
qed

lemma round64_exact:
  assumes "\<bar>m\<bar> < 2 ^ 53" "- 1074 \<le> e"
    and "of_int \<bar>m\<bar> * 2 powr (of_int e) < (2::real) ^ 1024"
  shows "round64 (of_int m * 2 powr (of_int e)) = Finite (of_int m * 2 powr (of_int e))"
proof (cases "0 \<le> m")
  case True
  with assms round64_exact_nonneg [of m e] show ?thesis by simp
next
  case False
  then have neg: "m < 0" by simp
  then have lt: "real_of_int m * 2 powr (of_int e) < 0"
    by (simp add: mult_neg_pos)
  have eq: "- (real_of_int m * 2 powr (of_int e)) = of_int (- m) * 2 powr (of_int e)"
    by simp
  from neg assms have "0 \<le> - m" "- m < 2 ^ 53" by simp_all
  from round_mag_exact [OF this assms(2)]
  have rm: "round_mag (of_int (- m) * 2 powr (of_int e)) = of_int (- m) * 2 powr (of_int e)" .
  from neg assms(3) have "of_int (- m) * 2 powr (of_int e) < (2::real) ^ 1024" by simp
  with rm show ?thesis
    unfolding round64_neg [OF lt] eq by simp
qed

lemma round64_int:
  assumes "\<bar>k\<bar> < 2 ^ 53"
  shows "round64 (of_int k) = Finite (of_int k)"
proof -
  from assms have "real_of_int \<bar>k\<bar> < 2 ^ 53"
    by (metis of_int_less_iff of_int_numeral of_int_power)
  moreover have "(2::real) ^ 53 < 2 ^ 1024" by simp
  ultimately have "real_of_int \<bar>k\<bar> * 2 powr (of_int 0) < 2 ^ 1024" by simp
  from round64_exact [OF assms _ this] show ?thesis by simp
qed



lemma round64_zero: "round64 0 = Finite 0"
  by (simp add: round64_def round_mag_def rne_def)

lemma round64_int_finite:
  assumes "\<bar>k\<bar> \<le> 2 ^ 64"
  shows "\<exists>y. round64 (of_int k) = Finite y"
proof -
  from assms have "real_of_int \<bar>k\<bar> \<le> 2 ^ 64"
    by (metis of_int_le_iff of_int_numeral of_int_power)
  then have le: "\<bar>real_of_int k\<bar> \<le> 2 ^ 64" by simp
  have "round_mag \<bar>real_of_int k\<bar> \<le> round_mag (2 ^ 64)"
    by (rule round_mag_mono) (use le in simp_all)
  moreover have "round_mag (of_int 1 * 2 powr (of_int 64)) = of_int 1 * 2 powr (of_int 64)"
    by (rule round_mag_exact) simp_all
  then have "round_mag (2 ^ 64) = 2 ^ 64" by simp
  moreover have "(2::real) ^ 64 < 2 ^ 1024" by simp
  ultimately have "\<not> 2 ^ 1024 \<le> round_mag \<bar>real_of_int k\<bar>" by linarith
  then show ?thesis by (simp add: round64_def Let_def)
qed

section \<open>Properties of the projection with number types\<close>

lemma to_f64_error: "to_f64 v = Inl e \<Longrightarrow> e = OverflowError"
  by (auto simp add: to_f64_def split: pynum.splits f64.splits)

lemma to_f64_PyInt: "to_f64 (PyInt k) = Inr t \<Longrightarrow> t = round64 (of_int k)"
  by (auto simp add: to_f64_def split: f64.splits)

lemma to_f64_int64_range:
  assumes "int64_range v"
  shows "\<exists>x. to_f64 v = Inr x"
proof (cases v)
  case (PyInt k)
  with assms have "\<bar>k\<bar> \<le> 2 ^ 64" by (simp add: int64_range_def abs_le_iff)
  from round64_int_finite [OF this] PyInt show ?thesis
    by (auto simp add: to_f64_def)
next
  case (PyFloat x)
  then show ?thesis by (simp add: to_f64_def)
qed

lemma to_f64_one_plus_int64_range:
  assumes "int64_range v"
  shows "\<exists>x. to_f64 (one_plus v) = Inr x"
proof (cases v)
  case (PyInt k)
  with assms have "\<bar>1 + k\<bar> \<le> 2 ^ 64" by (simp add: int64_range_def abs_le_iff)
  from round64_int_finite [OF this] PyInt show ?thesis
    by (auto simp add: to_f64_def one_plus_def)
next
  case (PyFloat x)
  then show ?thesis by (simp add: to_f64_def one_plus_def)
qed

lemma loop_np_ok:
  assumes "to_f64 (one_plus r) = Inr g" "to_f64 c = Inr cf"
  shows "loop_np r c is fv = Inr (fold (loop_step g cf) is fv)"
  using assms by (induction "is" arbitrary: fv) (simp_all add: loop_body_np_def)

lemma loop_np_Inr:
  assumes "loop_np r c is fv = Inr fv'" "is \<noteq> []"
  shows "\<exists>g cf. to_f64 (one_plus r) = Inr g \<and> to_f64 c = Inr cf"
proof -
  from assms(2) obtain i js where "is = i # js" by (cases "is") auto
  with assms(1) show ?thesis
    by (auto simp add: loop_body_np_def split: sum.splits)
qed

lemma loop_np_error: "loop_np r c is fv = Inl e \<Longrightarrow> e = OverflowError"
proof (induction "is" arbitrary: fv)
  case Nil
  then show ?case by simp
next
  case (Cons i "is")
  then show ?case
    by (auto simp add: loop_body_np_def split: sum.splits dest: to_f64_error)
qed

lemma length_loop_step: "length (loop_step g cf i fv) = length fv"
  by (simp add: loop_step_def)

lemma length_fold_loop_step: "length (fold (loop_step g cf) is fv) = length fv"
  by (induction "is" arbitrary: fv) (simp_all add: length_loop_step)

lemma fold_loop_step_spec:
  assumes "m < length fv" and "fv ! 0 = initial"
  shows "\<forall>k\<le>m. fold (loop_step g cf) [1 ..< Suc m] fv ! k = spec_value_f64 g initial cf k"
  using assms
proof (induction m)
  case 0
  then show ?case by simp
next
  case (Suc m)
  let ?f = "fold (loop_step g cf) [1 ..< Suc m] fv"
  from Suc have IH: "\<forall>k\<le>m. ?f ! k = spec_value_f64 g initial cf k" by simp
  have len: "length ?f = length fv" by (rule length_fold_loop_step)
  have step: "fold (loop_step g cf) [1 ..< Suc (Suc m)] fv = loop_step g cf (Suc m) ?f"
    by simp
  show ?case
  proof (intro allI impI)
    fix k assume "k \<le> Suc m"
    show "fold (loop_step g cf) [1 ..< Suc (Suc m)] fv ! k = spec_value_f64 g initial cf k"
    proof (cases "k = Suc m")
      case True
      with Suc.prems len IH show ?thesis
        unfolding step by (simp add: loop_step_def)
    next
      case False
      with \<open>k \<le> Suc m\<close> have "k \<le> m" by simp
      with IH False show ?thesis
        unfolding step by (simp add: loop_step_def)
    qed
  qed
qed

lemma future_values_np_spec:
  assumes "k < n"
  shows "drop 1 (fold (loop_step g cf) [1 ..< Suc n] ((replicate (Suc n) (Finite 0))[0 := initial])) ! k
           = spec_value_f64 g initial cf (Suc k)"
proof -
  let ?fv = "(replicate (Suc n) (Finite 0))[0 := initial]"
  have "\<forall>j\<le>n. fold (loop_step g cf) [1 ..< Suc n] ?fv ! j = spec_value_f64 g initial cf j"
    by (rule fold_loop_step_spec) simp_all
  moreover have "length (fold (loop_step g cf) [1 ..< Suc n] ?fv) = Suc n"
    by (simp add: length_fold_loop_step)
  ultimately show ?thesis using assms by simp
qed



lemma length_accumulate_from: "length (accumulate_from f acc xs) = length xs"
  by (induction xs arbitrary: acc) simp_all

lemma length_accumulate: "length (accumulate f xs) = length xs"
  by (cases xs) (simp_all add: accumulate_def length_accumulate_from)





lemma length_cells_cumsum_repeat: "length (cells (np_cumsum (np_repeat c n))) = n"
  by (cases c) (simp_all add: np_repeat_def np_cumsum_def length_accumulate)



lemma subtract_object_Inr:
  "subtract_object vs ks = Inr rs \<Longrightarrow> length vs = length ks \<Longrightarrow>
   length rs = length vs \<and> (\<forall>k<length vs. rs ! k = fsub (vs ! k) (round64 (of_int (ks ! k))))"
proof (induction vs ks arbitrary: rs rule: subtract_object.induct)
  case (1 ks)
  then show ?case by simp
next
  case (2 v vs)
  then show ?case by simp
next
  case (3 v vs k ks)
  from "3.prems"(1) obtain t rs' where t: "to_f64 (PyInt k) = Inr t"
    and rs': "subtract_object vs ks = Inr rs'" and rs: "rs = fsub v t # rs'"
    by (auto split: sum.splits)
  from "3.IH" [OF t rs'] "3.prems"(2)
  have IH: "length rs' = length vs"
    "\<forall>i<length vs. rs' ! i = fsub (vs ! i) (round64 (of_int (ks ! i)))"
    by simp_all
  from to_f64_PyInt [OF t] have tt: "t = round64 (of_int k)" .
  show ?case
  proof (intro conjI allI impI)
    show "length rs = length (v # vs)" using rs IH(1) by simp
  next
    fix i assume "i < length (v # vs)"
    then show "rs ! i = fsub ((v # vs) ! i) (round64 (of_int ((k # ks) ! i)))"
      using rs IH tt by (cases i) simp_all
  qed
qed

lemma subtract_object_error: "subtract_object vs ks = Inl e \<Longrightarrow> e = OverflowError"
proof (induction vs ks rule: subtract_object.induct)
  case (1 ks)
  then show ?case by simp
next
  case (2 v vs)
  then show ?case by simp
next
  case (3 v vs k ks)
  then show ?case by (auto split: sum.splits dest: to_f64_error)
qed

lemma np_subtract_error: "np_subtract vs a = Inl e \<Longrightarrow> e = OverflowError"
  by (cases a) (auto simp add: np_subtract_def dest: subtract_object_error)

lemma np_subtract_Inr:
  assumes "np_subtract vs a = Inr rs" "length (cells a) = length vs"
  shows "length rs = length vs \<and> (\<forall>k<length vs. rs ! k = fsub (vs ! k) (cell_f64 (cells a ! k)))"
proof (cases a)
  case (Int64 ks)
  with assms show ?thesis by (auto simp add: np_subtract_def cell_f64_def)
next
  case (UInt64 ks)
  with assms show ?thesis by (auto simp add: np_subtract_def cell_f64_def)
next
  case (Object ks)
  with assms have "subtract_object vs ks = Inr rs" "length vs = length ks"
    by (simp_all add: np_subtract_def)
  from subtract_object_Inr [OF this] Object \<open>length vs = length ks\<close> show ?thesis
    by (simp add: cell_f64_def)
next
  case (Float64 ts)
  with assms show ?thesis by (auto simp add: np_subtract_def cell_f64_def)
qed

lemma np_subtract_int64_range:
  assumes "int64_range c"
  shows "\<exists>rs. np_subtract vs (np_cumsum (np_repeat c n)) = Inr rs"
  using assms
  by (cases c) (simp_all add: int64_range_def np_repeat_def np_cumsum_def np_subtract_def)

lemma np_subtract_empty: "np_subtract [] (np_cumsum (np_repeat c 0)) = Inr []"
  by (cases c) (simp_all add: np_repeat_def np_cumsum_def np_subtract_def accumulate_def)

lemma calculate_compounding_np_negative:
  "n_years < - 1 \<Longrightarrow> calculate_compounding_np r i c n_years = Inl ValueError"
  by (simp add: calculate_compounding_np_def)

lemma calculate_compounding_np_minus_one:
  "calculate_compounding_np r i c (- 1) = Inl IndexError"
  by (simp add: calculate_compounding_np_def)

lemma calculate_compounding_np_error:
  assumes "0 \<le> n_years" "calculate_compounding_np r i c n_years = Inl e"
  shows "e = OverflowError"
  using assms
  by (auto simp add: calculate_compounding_np_def Let_def split: sum.splits
      dest: to_f64_error loop_np_error np_subtract_error)

lemma calculate_compounding_np_zero:
  "calculate_compounding_np r i c 0 =
     (case to_f64 i of
        Inl e \<Rightarrow> Inl e
      | Inr v \<Rightarrow> Inr \<lparr> Year_np = [], Total_Contributions_np = np_cumsum (np_repeat c 0),
                       Accrued_Interest_np = [], Total_Value_np = [] \<rparr>)"
  by (simp add: calculate_compounding_np_def np_subtract_empty split: sum.splits)

lemma calculate_compounding_np_Inr:
  assumes "0 < n_years" "calculate_compounding_np r i c n_years = Inr df"
  shows "\<exists>v0 g cf.
           to_f64 i = Inr v0 \<and> to_f64 (one_plus r) = Inr g \<and> to_f64 c = Inr cf \<and>
           Year_np df = map int [1 ..< Suc (nat n_years)] \<and>
           Total_Contributions_np df = np_cumsum (np_repeat c (nat n_years)) \<and>
           length (Total_Value_np df) = nat n_years \<and>
           length (Accrued_Interest_np df) = nat n_years \<and>
           (\<forall>k<nat n_years.
              Total_Value_np df ! k = spec_value_f64 g v0 cf (Suc k) \<and>
              Accrued_Interest_np df ! k =
                fsub (Total_Value_np df ! k) (cell_f64 (cells (Total_Contributions_np df) ! k)))"
proof -
  define n where "n = nat n_years"
  with assms(1) have n: "nat (n_years + 1) = Suc n" "0 < n" by simp_all
  from assms obtain v0 fv ai where v0: "to_f64 i = Inr v0"
    and loop: "loop_np r c [1 ..< Suc n] ((replicate (Suc n) (Finite 0))[0 := v0]) = Inr fv"
    and sub: "np_subtract (drop 1 fv) (np_cumsum (np_repeat c n)) = Inr ai"
    and df: "df = \<lparr> Year_np = map int [1 ..< Suc n],
                     Total_Contributions_np = np_cumsum (np_repeat c n),
                     Accrued_Interest_np = ai, Total_Value_np = drop 1 fv \<rparr>"
    unfolding calculate_compounding_np_def Let_def n n_def [symmetric]
    by (auto split: sum.splits if_splits)
  from n(2) have "[1 ..< Suc n] \<noteq> []" by simp
  from loop_np_Inr [OF loop this] obtain g cf
    where g: "to_f64 (one_plus r) = Inr g" and cf: "to_f64 c = Inr cf" by blast
  from loop loop_np_ok [OF g cf]
  have fv: "fv = fold (loop_step g cf) [1 ..< Suc n] ((replicate (Suc n) (Finite 0))[0 := v0])"
    by simp
  have lfv: "length (drop 1 fv) = n" by (simp add: fv length_fold_loop_step)
  have tv: "\<And>k. k < n \<Longrightarrow> drop 1 fv ! k = spec_value_f64 g v0 cf (Suc k)"
    unfolding fv by (rule future_values_np_spec)
  from lfv have "length (cells (np_cumsum (np_repeat c n))) = length (drop 1 fv)"
    by (simp add: length_cells_cumsum_repeat)
  from np_subtract_Inr [OF sub this] lfv
  have ai: "length ai = n"
    "\<forall>k<n. ai ! k = fsub (drop 1 fv ! k) (cell_f64 (cells (np_cumsum (np_repeat c n)) ! k))"
    by simp_all
  from v0 g cf lfv tv ai show ?thesis
    unfolding n_def [symmetric] df by auto
qed

lemma calculate_compounding_np_ok:
  assumes "0 \<le> n_years" "int64_range r" "int64_range i" "int64_range c"
  shows "\<exists>df. calculate_compounding_np r i c n_years = Inr df"
proof -
  from to_f64_int64_range [OF assms(3)] obtain v0 where v0: "to_f64 i = Inr v0" by blast
  from to_f64_one_plus_int64_range [OF assms(2)] obtain g
    where g: "to_f64 (one_plus r) = Inr g" by blast
  from to_f64_int64_range [OF assms(4)] obtain cf where cf: "to_f64 c = Inr cf" by blast
  from np_subtract_int64_range [OF assms(4)]
  obtain rs where "np_subtract
      (drop 1 (fold (loop_step g cf) [1 ..< nat (n_years + 1)]
         ((replicate (nat (n_years + 1)) (Finite 0))[0 := v0])))
      (np_cumsum (np_repeat c (nat n_years))) = Inr rs"
    by blast
  with assms(1) v0 show ?thesis
    unfolding calculate_compounding_np_def Let_def
    by (simp add: loop_np_ok [OF g cf])
qed

lemma round64_numeral:
  "(numeral w :: int) < 2 ^ 53 \<Longrightarrow> round64 (numeral w) = Finite (numeral w)"
  using round64_int [of "numeral w"] by simp

lemma round64_neg_numeral:
  "(numeral w :: int) < 2 ^ 53 \<Longrightarrow> round64 (- numeral w) = Finite (- numeral w)"
  using round64_int [of "- numeral w"] by simp

lemma round64_one: "round64 1 = Finite 1"
  using round64_int [of 1] by simp


lemma round64_overflow:
  assumes "2 ^ 1024 \<le> x"
  shows "round64 x = PInf"
proof -
  have e: "expo (2 ^ 1024) = 1024"
    by (rule expo_eqI) (simp_all add: powr_realpow [of 2 1024, simplified] powr_realpow [of 2 1025, simplified])
  have pos: "(0::real) \<le> 2 ^ 1024" by simp
  from expo_mono [OF pos assms] e have ex: "1024 \<le> expo x" by simp
  have "(2::real) powr (- 1022) \<le> 1" by (simp add: powr_minus field_simps)
  moreover have "(1::real) \<le> 2 ^ 1024" by simp
  ultimately have "2 powr (- 1022) \<le> x" using assms by linarith
  from round_mag_ge_bottom [OF this] have C: "2 powr (of_int (expo x)) \<le> round_mag x" .
  have A: "(2::real) ^ 1024 = 2 powr (real_of_int 1024)" by simp
  from ex have "real_of_int 1024 \<le> real_of_int (expo x)" by simp
  then have B: "(2::real) powr (real_of_int 1024) \<le> 2 powr (of_int (expo x))"
    by (rule powr_mono) simp
  have "2 ^ 1024 \<le> round_mag x"
    unfolding A by (rule order_trans [OF B C])
  moreover from assms have "0 < x" "0 \<le> x"
    by (smt (verit) zero_less_power)+
  ultimately show ?thesis
    by (simp add: round64_nonneg)
qed

lemma to_f64_overflow: "2 ^ 1024 \<le> k \<Longrightarrow> to_f64 (PyInt k) = Inl OverflowError"
proof -
  assume "2 ^ 1024 \<le> k"
  then have "(2::real) ^ 1024 \<le> of_int k"
    by (metis of_int_le_iff of_int_numeral of_int_power)
  from round64_overflow [OF this] show ?thesis by (simp add: to_f64_def)
qed

lemma calculate_compounding_np_example:
  "calculate_compounding_np (PyFloat (Finite 0)) (PyInt 0) (PyInt 100) 2 =
     Inr \<lparr> Year_np = [1, 2], Total_Contributions_np = Int64 [100, 200],
           Accrued_Interest_np = [Finite 0, Finite 0],
           Total_Value_np = [Finite 100, Finite 200] \<rparr>"
  by (simp add: calculate_compounding_np_def to_f64_def one_plus_def loop_body_np_def
      loop_step_def np_repeat_def np_cumsum_def np_subtract_def accumulate_def fsub_def
      wrap_int64_def round64_zero round64_one round64_numeral round64_neg_numeral
      numeral_2_eq_2 numeral_3_eq_3 upt_rec)

section \<open>Order properties of the binary64 projection\<close>






















section \<open>The error of binary64 rounding\<close>





section \<open>The claims\<close>

text \<open>
  Claim C1, as stated: for every rate, initial amount and contribution and every horizon
  \<open>n_years > 0\<close> the projection returns a series. It does not for an int initial amount
  beyond the binary64 range: with rate 0, initial \<open>2 ^ 1024\<close>, contribution 0 and one year
  the assignment of the initial value raises \<^verbatim>\<open>OverflowError\<close>.
\<close>

theorem calculate_compounding_overflow_counterexample:
  "(0::int) < 1 \<and>
   calculate_compounding_np (PyInt 0) (PyInt (2 ^ 1024)) (PyInt 0) 1 = Inl OverflowError"
  by (simp add: calculate_compounding_np_def to_f64_overflow)

text \<open>
  Claim C1, amended: for every horizon \<open>n_years > 0\<close> the projection either raises
  \<^verbatim>\<open>OverflowError\<close>, which needs an int argument outside the int64 range, or returns a
  series of exactly \<open>n_years\<close> rows whose years are \<open>1, ..., n_years\<close>, strictly
  increasing, and whose total value in row \<open>i\<close> is the value \<open>i\<close> of the recurrence of the
  specification evaluated in binary64 on the converted arguments: the value 0 is the
  initial amount, the growth factor is \<open>1 + rate\<close>, and the value of year 0 is not part of
  the series. It returns a series whenever every argument is a float or an int in the
  int64 range.
\<close>

theorem calculate_compounding_np_series:
  assumes "0 < n_years"
  shows
    "(\<forall>e. calculate_compounding_np rate initial contribution n_years = Inl e \<longrightarrow>
        e = OverflowError \<and>
        \<not> (int64_range rate \<and> int64_range initial \<and> int64_range contribution)) \<and>
     (int64_range rate \<and> int64_range initial \<and> int64_range contribution \<longrightarrow>
        (\<exists>df. calculate_compounding_np rate initial contribution n_years = Inr df)) \<and>
     (\<forall>df. calculate_compounding_np rate initial contribution n_years = Inr df \<longrightarrow>
        (\<exists>value0 growth c.
           to_f64 initial = Inr value0 \<and> to_f64 (one_plus rate) = Inr growth \<and>
           to_f64 contribution = Inr c \<and>
           length (Year_np df) = nat n_years \<and>
           length (cells (Total_Contributions_np df)) = nat n_years \<and>
           length (Accrued_Interest_np df) = nat n_years \<and>
           length (Total_Value_np df) = nat n_years \<and>
           Year_np df = map int [1 ..< Suc (nat n_years)] \<and>
           sorted_wrt (<) (Year_np df) \<and>
           (\<forall>i. 1 \<le> i \<and> i \<le> nat n_years \<longrightarrow>
              Year_np df ! (i - 1) = int i \<and>
              Total_Value_np df ! (i - 1) = spec_value_f64 growth value0 c i)))"
proof (intro conjI allI impI)
  fix e
  assume e: "calculate_compounding_np rate initial contribution n_years = Inl e"
  from assms have n0: "0 \<le> n_years" by simp
  from calculate_compounding_np_error [OF n0 e] show "e = OverflowError" .
  show "\<not> (int64_range rate \<and> int64_range initial \<and> int64_range contribution)"
  proof
    assume "int64_range rate \<and> int64_range initial \<and> int64_range contribution"
    with calculate_compounding_np_ok [OF n0, of rate initial contribution] e
    show False by auto
  qed
next
  assume "int64_range rate \<and> int64_range initial \<and> int64_range contribution"
  with assms calculate_compounding_np_ok [of n_years rate initial contribution]
  show "\<exists>df. calculate_compounding_np rate initial contribution n_years = Inr df"
    by simp
next
  fix df
  assume df: "calculate_compounding_np rate initial contribution n_years = Inr df"
  from calculate_compounding_np_Inr [OF assms df]
  obtain v0 g cf where conv: "to_f64 initial = Inr v0" "to_f64 (one_plus rate) = Inr g"
      "to_f64 contribution = Inr cf"
    and years: "Year_np df = map int [1 ..< Suc (nat n_years)]"
    and tc: "Total_Contributions_np df = np_cumsum (np_repeat contribution (nat n_years))"
    and len: "length (Total_Value_np df) = nat n_years"
      "length (Accrued_Interest_np df) = nat n_years"
    and cells: "\<forall>k<nat n_years. Total_Value_np df ! k = spec_value_f64 g v0 cf (Suc k)"
    by blast
  have "sorted_wrt (<) (map int [1 ..< Suc (nat n_years)])"
    by (simp add: sorted_wrt_map del: upt_Suc)
  with years have sorted: "sorted_wrt (<) (Year_np df)" by simp
  from years have ly: "length (Year_np df) = nat n_years" by simp
  from tc have ltc: "length (cells (Total_Contributions_np df)) = nat n_years"
    by (simp add: length_cells_cumsum_repeat)
  have rows: "Year_np df ! (i - 1) = int i \<and>
        Total_Value_np df ! (i - 1) = spec_value_f64 g v0 cf i"
    if "1 \<le> i \<and> i \<le> nat n_years" for i
  proof -
    from that obtain k where k: "i = Suc k" "k < nat n_years"
      by (cases i) auto
    with cells years show ?thesis by (simp add: nth_upt del: upt_Suc)
  qed
  from conv ly ltc len years sorted rows
  show "\<exists>value0 growth c.
           to_f64 initial = Inr value0 \<and> to_f64 (one_plus rate) = Inr growth \<and>
           to_f64 contribution = Inr c \<and>
           length (Year_np df) = nat n_years \<and>
           length (cells (Total_Contributions_np df)) = nat n_years \<and>
           length (Accrued_Interest_np df) = nat n_years \<and>
           length (Total_Value_np df) = nat n_years \<and>
           Year_np df = map int [1 ..< Suc (nat n_years)] \<and>
           sorted_wrt (<) (Year_np df) \<and>
           (\<forall>i. 1 \<le> i \<and> i \<le> nat n_years \<longrightarrow>
              Year_np df ! (i - 1) = int i \<and>
              Total_Value_np df ! (i - 1) = spec_value_f64 growth value0 c i)"
    by blast
qed

theorem calculate_compounding_np_series_witness:
  "(0::int) < 2 \<and>
   calculate_compounding_np (PyFloat (Finite 0)) (PyInt 0) (PyInt 100) 2 =
     Inr \<lparr> Year_np = [1, 2], Total_Contributions_np = Int64 [100, 200],
           Accrued_Interest_np = [Finite 0, Finite 0],
           Total_Value_np = [Finite 100, Finite 200] \<rparr> \<and>
   spec_value_f64 (Finite 1) (Finite 0) (Finite 100) 2 = Finite 200"
proof -
  let ?df = "\<lparr> Year_np = [1, 2], Total_Contributions_np = Int64 [100, 200],
           Accrued_Interest_np = [Finite 0, Finite 0],
           Total_Value_np = [Finite 100, Finite 200] \<rparr>"
  have pos: "(0::int) < 2" by simp
  note eq = calculate_compounding_np_example
  have conv: "to_f64 (PyInt 0) = Inr (Finite 0)"
    "to_f64 (one_plus (PyFloat (Finite 0))) = Inr (Finite 1)"
    "to_f64 (PyInt 100) = Inr (Finite 100)"
    by (simp_all add: to_f64_def one_plus_def round64_zero round64_one round64_numeral)
  from calculate_compounding_np_series [OF pos, of "PyFloat (Finite 0)" "PyInt 0" "PyInt 100",
      THEN conjunct2, THEN conjunct2, rule_format, OF eq]
  obtain v0 g c where "to_f64 (PyInt 0) = Inr v0"
      "to_f64 (one_plus (PyFloat (Finite 0))) = Inr g" "to_f64 (PyInt 100) = Inr c"
    and rows: "\<forall>i. 1 \<le> i \<and> i \<le> nat 2 \<longrightarrow>
              Total_Value_np ?df ! (i - 1) = spec_value_f64 g v0 c i"
    by blast
  with conv have "v0 = Finite 0" "g = Finite 1" "c = Finite 100" by simp_all
  with rows [rule_format, of 2]
  have "spec_value_f64 (Finite 1) (Finite 0) (Finite 100) 2 = Finite 200" by simp
  with pos eq show ?thesis by blast
qed









text \<open>
  Claim C5. After the merge the script computes the gain as the last total value minus the
  last total contributions and the tax as the gain times the tax rate, and appends exactly
  one terminal row: its year is the horizon plus one (the horizon of the script is 40, the
  year is 41), its total value is the last total value minus the tax, and its total
  contributions and accrued interest are missing. The merged series has 40 rows, the result
  has 41. The four arguments are the values of the input widgets, in percent.
\<close>

theorem main_terminal_tax_row:
  "\<exists>vars h m h1 r h2.
     main_projections interest_pct fees_stock_pct fees_3a_pct tax_pct = Inr (vars, h) \<and>
     merge_step (data_result_3a vars) (data_result_tax_benefit vars) h = (m, h1) \<and>
     main interest_pct fees_stock_pct fees_3a_pct tax_pct = Inr (vars, r, h2) \<and>
     frame_rows (h1 ! m) 40 \<and>
     frame_rows (h2 ! r) (40 + 1) \<and>
     (\<forall>k<40. Year (h2 ! r) ! k = Year (h1 ! m) ! k \<and>
              Total_Value (h2 ! r) ! k = Total_Value (h1 ! m) ! k \<and>
              Total_Contributions (h2 ! r) ! k = Total_Contributions (h1 ! m) ! k \<and>
              Accrued_Interest (h2 ! r) ! k = Accrued_Interest (h1 ! m) ! k) \<and>
     Year (h2 ! r) ! 40 = 40 + 1 \<and>
     Total_Contributions (h2 ! r) ! 40 = None \<and>
     Accrued_Interest (h2 ! r) ! 40 = None \<and>
     (\<exists>last_value last_contributions gain tax.
        Total_Value (h1 ! m) ! 39 = Some last_value \<and>
        Total_Contributions (h1 ! m) ! 39 = Some last_contributions \<and>
        gain = last_value - last_contributions \<and>
        tax = gain * (tax_pct / 100) \<and>
        Total_Value (h2 ! r) ! 40 = Some (last_value - tax))"
proof -
  let ?V = "\<lparr> data_result = 0, data_result_3a = 1, data_result_tax_benefit = 2 \<rparr>"
  from main_composite [of interest_pct fees_stock_pct fees_3a_pct tax_pct]
  obtain df df_3a df_tb F T where
    proj: "main_projections interest_pct fees_stock_pct fees_3a_pct tax_pct =
             Inr (?V, [df, df_3a, df_tb])"
    and step: "merge_step 1 2 [df, df_3a, df_tb] = (3, [df, df_3a, df_tb, F])"
    and main: "main interest_pct fees_stock_pct fees_3a_pct tax_pct =
             Inr (?V, 4, [df, df_3a, df_tb, F, T])"
    and rows: "frame_rows F 40" "frame_rows T 41"
    and cells: "\<forall>k<40. \<exists>v c a. Total_Value F ! k = Some v \<and>
                  Total_Contributions F ! k = Some c \<and>
                  Accrued_Interest F ! k = Some a \<and> v = c + a"
    and same: "\<forall>k<40. Year T ! k = Year F ! k \<and>
              Total_Value T ! k = Total_Value F ! k \<and>
              Total_Contributions T ! k = Total_Contributions F ! k \<and>
              Accrued_Interest T ! k = Accrued_Interest F ! k"
    and last: "Year T ! 40 = 41" "Total_Contributions T ! 40 = None"
      "Accrued_Interest T ! 40 = None"
    and tv: "Total_Value T ! 40 =
       nan_sub (Total_Value F ! 39)
         (nan_mul (nan_sub (Total_Value F ! 39) (Total_Contributions F ! 39))
            (Some (tax_pct / 100)))"
    by blast
  from cells obtain v c where vc: "Total_Value F ! 39 = Some v"
    "Total_Contributions F ! 39 = Some c"
    by (auto dest: spec [of _ 39])
  with tv have tv': "Total_Value T ! 40 = Some (v - (v - c) * (tax_pct / 100))"
    by (simp add: nan_sub_def nan_mul_def)
  from vc tv' have ex: "\<exists>last_value last_contributions gain tax.
        Total_Value F ! 39 = Some last_value \<and>
        Total_Contributions F ! 39 = Some last_contributions \<and>
        gain = last_value - last_contributions \<and>
        tax = gain * (tax_pct / 100) \<and>
        Total_Value T ! 40 = Some (last_value - tax)"
    by blast
  from rows(2) last(1) have rows': "frame_rows T (40 + 1)" and last': "Year T ! 40 = 40 + 1"
    by simp_all
  have F: "[df, df_3a, df_tb, F] ! 3 = F" and T: "[df, df_3a, df_tb, F, T] ! 4 = T"
    by simp_all
  have sel: "data_result_3a ?V = 1" "data_result_tax_benefit ?V = 2"
    by simp_all
  show ?thesis
    apply (rule exI [of _ ?V])
    apply (rule exI [of _ "[df, df_3a, df_tb]"])
    apply (rule exI [of _ 3])
    apply (rule exI [of _ "[df, df_3a, df_tb, F]"])
    apply (rule exI [of _ 4])
    apply (rule exI [of _ "[df, df_3a, df_tb, F, T]"])
    unfolding F T sel
    using proj step main rows(1) rows' same last' last(2,3) ex by blast
qed

theorem main_terminal_tax_row_witness:
  "\<exists>vars r h2.
     main 8 (1 / 5) (1 / 2) 20 = Inr (vars, r, h2) \<and>
     frame_rows (h2 ! r) 41 \<and>
     Year (h2 ! r) ! 40 = 41 \<and>
     Total_Contributions (h2 ! r) ! 40 = None \<and>
     Accrued_Interest (h2 ! r) ! 40 = None"
  using main_terminal_tax_row [of 8 "1 / 5" "1 / 2" 20] by auto

text \<open>
  Claim C6, as stated: for every non-positive horizon the projection fails. It does not for
  the horizon 0, where it returns the series without rows.
\<close>

theorem calculate_compounding_np_zero_years_counterexample:
  "(0::int) \<le> 0 \<and>
   calculate_compounding_np (PyFloat (Finite 0)) (PyInt 0) (PyInt 100) 0 =
     Inr \<lparr> Year_np = [], Total_Contributions_np = Int64 [],
           Accrued_Interest_np = [], Total_Value_np = [] \<rparr>"
  by (simp add: calculate_compounding_np_zero to_f64_def round64_zero np_repeat_def
      np_cumsum_def accumulate_def)

text \<open>
  Claim C6, amended: the projection checks nothing itself and has no error of its own. For
  a horizon below -1 it fails with \<^verbatim>\<open>ValueError\<close> (an array of negative size) and for the
  horizon -1 with \<^verbatim>\<open>IndexError\<close> (the write of the initial value into an array of size 0).
  For the horizon 0 it returns the series without rows, unless the initial amount is an int
  too large for binary64, which raises \<^verbatim>\<open>OverflowError\<close>. For a positive horizon it returns
  a series or raises \<^verbatim>\<open>OverflowError\<close>. For a horizon of at least 0 it returns a series
  whenever every argument is a float or an int in the int64 range.
\<close>

theorem calculate_compounding_np_errors:
  "(n_years < - 1 \<longrightarrow>
      calculate_compounding_np rate initial contribution n_years = Inl ValueError) \<and>
   (n_years = - 1 \<longrightarrow>
      calculate_compounding_np rate initial contribution n_years = Inl IndexError) \<and>
   (n_years = 0 \<longrightarrow>
      (case to_f64 initial of
         Inl e \<Rightarrow> calculate_compounding_np rate initial contribution n_years = Inl OverflowError
       | Inr v \<Rightarrow>
           (\<exists>df. calculate_compounding_np rate initial contribution n_years = Inr df \<and>
                 Year_np df = [] \<and> cells (Total_Contributions_np df) = [] \<and>
                 Accrued_Interest_np df = [] \<and> Total_Value_np df = []))) \<and>
   (0 < n_years \<longrightarrow>
      calculate_compounding_np rate initial contribution n_years = Inl OverflowError \<or>
      (\<exists>df. calculate_compounding_np rate initial contribution n_years = Inr df)) \<and>
   (0 \<le> n_years \<and> int64_range rate \<and> int64_range initial \<and> int64_range contribution \<longrightarrow>
      (\<exists>df. calculate_compounding_np rate initial contribution n_years = Inr df))"
proof (intro conjI impI)
  assume "n_years < - 1"
  then show "calculate_compounding_np rate initial contribution n_years = Inl ValueError"
    by (rule calculate_compounding_np_negative)
next
  assume "n_years = - 1"
  then show "calculate_compounding_np rate initial contribution n_years = Inl IndexError"
    by (simp add: calculate_compounding_np_minus_one)
next
  assume n: "n_years = 0"
  have len: "length (cells (np_cumsum (np_repeat contribution 0))) = 0"
    by (rule length_cells_cumsum_repeat)
  show "case to_f64 initial of
         Inl e \<Rightarrow> calculate_compounding_np rate initial contribution n_years = Inl OverflowError
       | Inr v \<Rightarrow>
           (\<exists>df. calculate_compounding_np rate initial contribution n_years = Inr df \<and>
                 Year_np df = [] \<and> cells (Total_Contributions_np df) = [] \<and>
                 Accrued_Interest_np df = [] \<and> Total_Value_np df = [])"
  proof (cases "to_f64 initial")
    case (Inl e)
    from to_f64_error [OF this] Inl n show ?thesis
      by (simp add: calculate_compounding_np_zero)
  next
    case (Inr v)
    with n len show ?thesis
      by (simp add: calculate_compounding_np_zero)
  qed
next
  assume pos: "0 < n_years"
  show "calculate_compounding_np rate initial contribution n_years = Inl OverflowError \<or>
      (\<exists>df. calculate_compounding_np rate initial contribution n_years = Inr df)"
  proof (cases "calculate_compounding_np rate initial contribution n_years")
    case (Inl e)
    from pos have "0 \<le> n_years" by simp
    from calculate_compounding_np_error [OF this Inl] Inl show ?thesis by simp
  next
    case (Inr df)
    then show ?thesis by simp
  qed
next
  assume "0 \<le> n_years \<and> int64_range rate \<and> int64_range initial \<and> int64_range contribution"
  then show "\<exists>df. calculate_compounding_np rate initial contribution n_years = Inr df"
    using calculate_compounding_np_ok [of n_years rate initial contribution] by simp
qed

theorem calculate_compounding_np_errors_witness:
  "calculate_compounding_np (PyFloat (Finite 0)) (PyInt 0) (PyInt 100) (- 2) = Inl ValueError \<and>
   calculate_compounding_np (PyFloat (Finite 0)) (PyInt 0) (PyInt 100) (- 1) = Inl IndexError \<and>
   (\<exists>df. calculate_compounding_np (PyFloat (Finite 0)) (PyInt 0) (PyInt 100) 0 = Inr df \<and>
         Year_np df = []) \<and>
   calculate_compounding_np (PyFloat (Finite 0)) (PyInt (2 ^ 1024)) (PyInt 100) 0
     = Inl OverflowError \<and>
   (\<exists>df. calculate_compounding_np (PyFloat (Finite 0)) (PyInt 0) (PyInt 100) 2 = Inr df)"
proof -
  have conv: "to_f64 (PyInt 0) = Inr (Finite 0)"
    by (simp add: to_f64_def round64_zero)
  have over: "to_f64 (PyInt (2 ^ 1024)) = Inl OverflowError"
    by (rule to_f64_overflow) simp
  have small: "int64_range (PyFloat (Finite 0))" "int64_range (PyInt 0)" "int64_range (PyInt 100)"
    by (simp_all add: int64_range_def)
  note a = calculate_compounding_np_errors [of "- 2" "PyFloat (Finite 0)" "PyInt 0" "PyInt 100"]
  note b = calculate_compounding_np_errors [of "- 1" "PyFloat (Finite 0)" "PyInt 0" "PyInt 100"]
  note c = calculate_compounding_np_errors [of 0 "PyFloat (Finite 0)" "PyInt 0" "PyInt 100"]
  note d = calculate_compounding_np_errors [of 0 "PyFloat (Finite 0)" "PyInt (2 ^ 1024)" "PyInt 100"]
  note e = calculate_compounding_np_errors [of 2 "PyFloat (Finite 0)" "PyInt 0" "PyInt 100"]
  from a have 1: "calculate_compounding_np (PyFloat (Finite 0)) (PyInt 0) (PyInt 100) (- 2)
      = Inl ValueError" by simp
  from b have 2: "calculate_compounding_np (PyFloat (Finite 0)) (PyInt 0) (PyInt 100) (- 1)
      = Inl IndexError" by simp
  from c conv have 3: "\<exists>df. calculate_compounding_np (PyFloat (Finite 0)) (PyInt 0) (PyInt 100) 0
      = Inr df \<and> Year_np df = []" by auto
  from d over have 4: "calculate_compounding_np (PyFloat (Finite 0)) (PyInt (2 ^ 1024)) (PyInt 100) 0
      = Inl OverflowError" by simp
  from e small have 5: "\<exists>df. calculate_compounding_np (PyFloat (Finite 0)) (PyInt 0) (PyInt 100) 2
      = Inr df" by simp
  from 1 2 3 4 5 show ?thesis by blast
qed

text \<open>
  Claim C7, as stated: given two series of different lengths, the merge fails with a
  shape-mismatch error. It does not: with a 3a series of two rows and a tax-benefit series
  of one row the merge returns a frame whose second row is missing in the three summed
  columns, and the tax step after it returns as well.
\<close>

theorem merge_different_lengths_counterexample:
  "length [1, 2 :: int] \<noteq> length [1 :: int] \<and>
   merge_step 0 1
     [\<lparr> Year = [1, 2], Total_Contributions = [Some 100, Some 200],
        Accrued_Interest = [Some 0, Some 10], Total_Value = [Some 100, Some 210] \<rparr>,
      \<lparr> Year = [1], Total_Contributions = [Some 20],
        Accrued_Interest = [Some 0], Total_Value = [Some 20] \<rparr>] =
   (2,
     [\<lparr> Year = [1, 2], Total_Contributions = [Some 100, Some 200],
        Accrued_Interest = [Some 0, Some 10], Total_Value = [Some 100, Some 210] \<rparr>,
      \<lparr> Year = [1], Total_Contributions = [Some 20],
        Accrued_Interest = [Some 0], Total_Value = [Some 20] \<rparr>,
      \<lparr> Year = [1, 2], Total_Contributions = [Some 120, None],
        Accrued_Interest = [Some 0, None], Total_Value = [Some 120, None] \<rparr>]) \<and>
   merge_and_tax (1 / 5) 0 1
     [\<lparr> Year = [1, 2], Total_Contributions = [Some 100, Some 200],
        Accrued_Interest = [Some 0, Some 10], Total_Value = [Some 100, Some 210] \<rparr>,
      \<lparr> Year = [1], Total_Contributions = [Some 20],
        Accrued_Interest = [Some 0], Total_Value = [Some 20] \<rparr>] =
   Inr (3,
     [\<lparr> Year = [1, 2], Total_Contributions = [Some 100, Some 200],
        Accrued_Interest = [Some 0, Some 10], Total_Value = [Some 100, Some 210] \<rparr>,
      \<lparr> Year = [1], Total_Contributions = [Some 20],
        Accrued_Interest = [Some 0], Total_Value = [Some 20] \<rparr>,
      \<lparr> Year = [1, 2], Total_Contributions = [Some 120, None],
        Accrued_Interest = [Some 0, None], Total_Value = [Some 120, None] \<rparr>,
      \<lparr> Year = [1, 2, 41], Total_Contributions = [Some 120, None, None],
        Accrued_Interest = [Some 0, None, None], Total_Value = [Some 120, None, None] \<rparr>])"
  by (simp add: merge_and_tax_def tax_step_def iloc_last_def concat_frames_def
      merge_step_def copy_def new_frame_def iadd_Total_Value_def
      iadd_Total_Contributions_def iadd_Accrued_Interest_def series_iadd_def nan_add_def
      nan_sub_def nan_mul_def numeral_2_eq_2 upt_rec)

text \<open>
  Claim C7, amended: the merge checks no lengths and raises nothing. Given a 3a series of
  \<open>N\<close> rows and a tax-benefit series of \<open>M \<noteq> N\<close> rows it returns a series of \<open>N\<close> rows
  with the years of the 3a series; in the three summed columns a row below \<open>M\<close> holds the
  sum and a row from \<open>M\<close> on is missing, and the rows of the tax-benefit series from \<open>N\<close> on
  are ignored. The tax step after it returns too when \<open>N > 0\<close>.
\<close>

theorem merge_step_different_lengths:
  assumes "r3a < length h" "rtb < length h"
    and "frame_rows (h ! r3a) N" "frame_rows (h ! rtb) M" "N \<noteq> M"
  shows "\<exists>m h'. merge_step r3a rtb h = (m, h') \<and>
           frame_rows (h' ! m) N \<and>
           Year (h' ! m) = Year (h ! r3a) \<and>
           (\<forall>k<N.
              Total_Value (h' ! m) ! k =
                (if k < M then nan_add (Total_Value (h ! r3a) ! k) (Total_Value (h ! rtb) ! k)
                 else None) \<and>
              Total_Contributions (h' ! m) ! k =
                (if k < M
                 then nan_add (Total_Contributions (h ! r3a) ! k) (Total_Contributions (h ! rtb) ! k)
                 else None) \<and>
              Accrued_Interest (h' ! m) ! k =
                (if k < M
                 then nan_add (Accrued_Interest (h ! r3a) ! k) (Accrued_Interest (h ! rtb) ! k)
                 else None)) \<and>
           (0 < N \<longrightarrow> (\<exists>r h''. merge_and_tax tax_rate r3a rtb h = Inr (r, h'')))"
proof -
  from merge_step_frame [OF assms(1,2)]
  obtain F where step: "merge_step r3a rtb h = (length h, h @ [F])"
    and F: "Year F = Year (h ! r3a)"
      "Total_Value F = series_iadd (Total_Value (h ! r3a)) (Total_Value (h ! rtb))"
      "Total_Contributions F =
         series_iadd (Total_Contributions (h ! r3a)) (Total_Contributions (h ! rtb))"
      "Accrued_Interest F =
         series_iadd (Accrued_Interest (h ! r3a)) (Accrued_Interest (h ! rtb))"
    by blast
  from F assms(3) have rows: "frame_rows F N"
    by (simp add: frame_rows_def length_series_iadd)
  from F assms(3,4) have cells: "\<forall>k<N.
      Total_Value F ! k =
        (if k < M then nan_add (Total_Value (h ! r3a) ! k) (Total_Value (h ! rtb) ! k)
         else None) \<and>
      Total_Contributions F ! k =
        (if k < M
         then nan_add (Total_Contributions (h ! r3a) ! k) (Total_Contributions (h ! rtb) ! k)
         else None) \<and>
      Accrued_Interest F ! k =
        (if k < M
         then nan_add (Accrued_Interest (h ! r3a) ! k) (Accrued_Interest (h ! rtb) ! k)
         else None)"
    by (simp add: frame_rows_def nth_series_iadd)
  have tax: "\<exists>r h''. merge_and_tax tax_rate r3a rtb h = Inr (r, h'')" if "0 < N"
  proof -
    from rows that have "Total_Value ((h @ [F]) ! length h) \<noteq> []"
      and "Total_Contributions ((h @ [F]) ! length h) \<noteq> []"
      by (auto simp add: frame_rows_def)
    from tax_step_eq [OF this, of tax_rate] step show ?thesis
      by (simp add: merge_and_tax_def)
  qed
  from step rows cells F(1) tax show ?thesis
    by (intro exI [of _ "length h"] exI [of _ "h @ [F]"]) simp
qed

theorem merge_step_different_lengths_witness:
  "(\<exists>m h'. merge_step 0 1
     [\<lparr> Year = [1, 2], Total_Contributions = [Some 100, Some 200],
        Accrued_Interest = [Some 0, Some 10], Total_Value = [Some 100, Some 210] \<rparr>,
      \<lparr> Year = [1], Total_Contributions = [Some 20],
        Accrued_Interest = [Some 0], Total_Value = [Some 20] \<rparr>] = (m, h') \<and>
      frame_rows (h' ! m) 2 \<and>
      Total_Value (h' ! m) ! 0 = nan_add (Some 100) (Some 20) \<and>
      Total_Value (h' ! m) ! 1 = None) \<and>
   (\<exists>r h''. merge_and_tax (1 / 5) 0 1
     [\<lparr> Year = [1, 2], Total_Contributions = [Some 100, Some 200],
        Accrued_Interest = [Some 0, Some 10], Total_Value = [Some 100, Some 210] \<rparr>,
      \<lparr> Year = [1], Total_Contributions = [Some 20],
        Accrued_Interest = [Some 0], Total_Value = [Some 20] \<rparr>] = Inr (r, h''))"
proof -
  let ?A = "\<lparr> Year = [1, 2], Total_Contributions = [Some 100, Some 200],
        Accrued_Interest = [Some 0, Some 10], Total_Value = [Some 100, Some (210::real)] \<rparr>"
  let ?B = "\<lparr> Year = [1], Total_Contributions = [Some 20],
        Accrued_Interest = [Some 0], Total_Value = [Some (20::real)] \<rparr>"
  have "(0::nat) < length [?A, ?B]" "(1::nat) < length [?A, ?B]"
    "frame_rows ([?A, ?B] ! 0) 2" "frame_rows ([?A, ?B] ! 1) 1" "(2::nat) \<noteq> 1"
    by (simp_all add: frame_rows_def)
  from merge_step_different_lengths [OF this, of "1 / 5"]
  obtain m h' where st: "merge_step 0 1 [?A, ?B] = (m, h')"
    and rows: "frame_rows (h' ! m) 2"
    and cells: "\<forall>k<2. Total_Value (h' ! m) ! k =
        (if k < 1 then nan_add (Total_Value ([?A, ?B] ! 0) ! k) (Total_Value ([?A, ?B] ! 1) ! k)
         else None)"
    and tax: "\<exists>r h''. merge_and_tax (1 / 5) 0 1 [?A, ?B] = Inr (r, h'')"
    by auto
  from cells [rule_format, of 0] cells [rule_format, of 1]
  have "Total_Value (h' ! m) ! 0 = nan_add (Some 100) (Some 20)"
    and "Total_Value (h' ! m) ! 1 = None"
    by simp_all
  with st rows tax show ?thesis by blast
qed






text \<open>
  Claim C10. The merge and the tax step leave both input series as they were: every frame
  that existed before is unchanged afterwards, among them the 3a series and the tax-benefit
  series. The sums are written into a copy, a new object, and the result is another new
  object.
\<close>

theorem merge_and_tax_preserves_inputs:
  assumes "r3a < length h" "rtb < length h"
    and "merge_and_tax tax_rate r3a rtb h = Inr (r, h')"
  shows "h' ! r3a = h ! r3a \<and> h' ! rtb = h ! rtb \<and>
         (\<forall>p<length h. h' ! p = h ! p) \<and>
         length h \<le> r \<and> r < length h' \<and> r \<noteq> r3a \<and> r \<noteq> rtb \<and>
         (\<exists>m h1. merge_step r3a rtb h = (m, h1) \<and> length h \<le> m \<and> m < length h1 \<and>
                  m \<noteq> r \<and> (\<forall>p<length h. h1 ! p = h ! p))"
proof -
  from merge_step_frame [OF assms(1,2)]
  obtain F where step: "merge_step r3a rtb h = (length h, h @ [F])"
    by blast
  with assms(3) have tax: "tax_step tax_rate (length h) (h @ [F]) = Inr (r, h')"
    by (simp add: merge_and_tax_def)
  with tax_step_cases [of tax_rate "length h" "h @ [F]"]
  obtain T where "Inr (r, h') = (Inr (length (h @ [F]), (h @ [F]) @ [T]) :: error + (ref \<times> heap))"
    by auto
  then have r: "r = Suc (length h)" and h': "h' = h @ [F, T]"
    by simp_all
  have old: "\<forall>p<length h. h' ! p = h ! p"
    unfolding h' by (simp add: nth_append)
  have old1: "\<forall>p<length h. (h @ [F]) ! p = h ! p"
    by (simp add: nth_append)
  from old assms(1,2) have "h' ! r3a = h ! r3a" "h' ! rtb = h ! rtb"
    by simp_all
  moreover from r h' assms(1,2)
  have "length h \<le> r" "r < length h'" "r \<noteq> r3a" "r \<noteq> rtb" "length h \<noteq> r"
    by simp_all
  moreover have "length h < length (h @ [F])" by simp
  ultimately show ?thesis
    using step old old1 by blast
qed

theorem merge_and_tax_preserves_inputs_witness:
  "merge_and_tax (1 / 5) 0 1
     [\<lparr> Year = [1, 2], Total_Contributions = [Some 100, Some 200],
        Accrued_Interest = [Some 0, Some 10], Total_Value = [Some 100, Some 210] \<rparr>,
      \<lparr> Year = [1, 2], Total_Contributions = [Some 20, Some 40],
        Accrued_Interest = [Some 0, Some 2], Total_Value = [Some 20, Some 42] \<rparr>] =
   Inr (3,
     [\<lparr> Year = [1, 2], Total_Contributions = [Some 100, Some 200],
        Accrued_Interest = [Some 0, Some 10], Total_Value = [Some 100, Some 210] \<rparr>,
      \<lparr> Year = [1, 2], Total_Contributions = [Some 20, Some 40],
        Accrued_Interest = [Some 0, Some 2], Total_Value = [Some 20, Some 42] \<rparr>,
      \<lparr> Year = [1, 2], Total_Contributions = [Some 120, Some 240],
        Accrued_Interest = [Some 0, Some 12], Total_Value = [Some 120, Some 252] \<rparr>,
      \<lparr> Year = [1, 2, 41], Total_Contributions = [Some 120, Some 240, None],
        Accrued_Interest = [Some 0, Some 12, None],
        Total_Value = [Some 120, Some 252, Some (1248 / 5)] \<rparr>]) \<and>
   (2::nat) \<le> 3 \<and> (3::nat) \<noteq> 0 \<and> (3::nat) \<noteq> 1"
proof -
  let ?A = "\<lparr> Year = [1, 2], Total_Contributions = [Some 100, Some 200],
        Accrued_Interest = [Some 0, Some 10], Total_Value = [Some 100, Some (210::real)] \<rparr>"
  let ?B = "\<lparr> Year = [1, 2], Total_Contributions = [Some 20, Some 40],
        Accrued_Interest = [Some 0, Some 2], Total_Value = [Some 20, Some (42::real)] \<rparr>"
  let ?M = "\<lparr> Year = [1, 2], Total_Contributions = [Some 120, Some 240],
        Accrued_Interest = [Some 0, Some 12], Total_Value = [Some 120, Some (252::real)] \<rparr>"
  let ?T = "\<lparr> Year = [1, 2, 41], Total_Contributions = [Some 120, Some 240, None],
        Accrued_Interest = [Some 0, Some 12, None],
        Total_Value = [Some 120, Some 252, Some (1248 / 5 :: real)] \<rparr>"
  have eq: "merge_and_tax (1 / 5) 0 1 [?A, ?B] = Inr (3, [?A, ?B, ?M, ?T])"
    by (simp add: merge_and_tax_def tax_step_def iloc_last_def concat_frames_def
        merge_step_def copy_def new_frame_def iadd_Total_Value_def
        iadd_Total_Contributions_def iadd_Accrued_Interest_def series_iadd_def nan_add_def
        nan_sub_def nan_mul_def numeral_2_eq_2 upt_rec)
  have "(0::nat) < length [?A, ?B]" "(1::nat) < length [?A, ?B]"
    by simp_all
  from merge_and_tax_preserves_inputs [OF this eq]
  have "length [?A, ?B] \<le> 3 \<and> (3::nat) \<noteq> 0 \<and> (3::nat) \<noteq> 1" by blast
  with eq show ?thesis by simp
qed

end
